theory Spec2Isabelle
  imports Complex_Main "HOL-Library.Word"
begin

unbundle bit_operations_syntax

chapter \<open>PC-ALE: embedding of the code\<close>

type_synonym u8 = "8 word"
type_synonym u16 = "16 word"
type_synonym u32 = "32 word"

section \<open>Extended Golay (24,12): src/src/fec/golay.cpp\<close>

text \<open>
  The initialiser list of \<^verbatim>\<open>GOLAY_ENCODE_TABLE\<close> as it stands in the source: 96 values.
  The array is declared \<^verbatim>\<open>std::array<uint16_t, 4096>\<close>; C++ aggregate initialisation
  zero-fills the elements that have no initialiser, which is what \<open>encode_table_at\<close> returns
  from index 96 on.
\<close>

definition GOLAY_ENCODE_TABLE :: "u16 list" where
  "GOLAY_ENCODE_TABLE = [
   0x000, 0x5C7, 0xB8D, 0xE4A, 0x2DE, 0x719, 0x953, 0xC94,
   0x5BC, 0x07B, 0xE31, 0xBF6, 0x762, 0x2A5, 0xCEF, 0x928,
   0xB78, 0xEBF, 0x0F5, 0x532, 0x9A6, 0xC61, 0x22B, 0x7EC,
   0xEC4, 0xB03, 0x549, 0x08E, 0xC1A, 0x9DD, 0x797, 0x250,
   0x337, 0x6F0, 0x8BA, 0xD7D, 0x1E9, 0x42E, 0xA64, 0xFA3,
   0x68B, 0x34C, 0xD06, 0x8C1, 0x455, 0x192, 0xFD8, 0xA1F,
   0x84F, 0xD88, 0x3C2, 0x605, 0xA91, 0xF56, 0x11C, 0x4DB,
   0xDF3, 0x834, 0x67E, 0x3B9, 0xF2D, 0xAEA, 0x4A0, 0x167,
   0x66D, 0x3AA, 0xDE0, 0x827, 0x4B3, 0x174, 0xF3E, 0xAF9,
   0x3D1, 0x616, 0x85C, 0xD9B, 0x10F, 0x4C8, 0xA82, 0xF45,
   0xD15, 0x8D2, 0x698, 0x35F, 0xFCB, 0xA0C, 0x446, 0x181,
   0x8A9, 0xD6E, 0x324, 0x6E3, 0xA77, 0xFB0, 0x1FA, 0x43D]"

definition encode_table_at :: "nat \<Rightarrow> u16" where
  "encode_table_at i = (if i < length GOLAY_ENCODE_TABLE then GOLAY_ENCODE_TABLE ! i else 0)"

text \<open>\<^verbatim>\<open>Golay::encode\<close>: codeword = (info << 12) | parity, in 32 bits.\<close>

definition encode :: "u16 \<Rightarrow> u32" where
  "encode info =
     (let parity = encode_table_at (unat (info AND 0xFFF));
          codeword = push_bit 12 (ucast info :: u32) OR ucast parity
      in codeword)"

text \<open>\<^verbatim>\<open>Golay::compute_parity\<close>: the loop shifts \<open>value\<close> right until it is zero.\<close>

function compute_parity_loop :: "u32 \<Rightarrow> u8 \<Rightarrow> u8" where
  "compute_parity_loop v parity =
     (if v = 0 then parity
      else compute_parity_loop (drop_bit 1 v) (parity XOR ucast (v AND 1)))"
  by pat_completeness auto
termination
  by (relation "measure (\<lambda>(v, p). unat v)")
     (simp_all add: drop_bit_eq_div unat_div unat_gt_0)

definition compute_parity :: "u32 \<Rightarrow> u8" where
  "compute_parity v = compute_parity_loop v 0"

definition compute_syndrome :: "u32 \<Rightarrow> u16" where
  "compute_syndrome codeword =
     (let info = (ucast (drop_bit 12 codeword AND 0xFFF) :: u16);
          received_parity = (ucast (codeword AND 0xFFF) :: u16);
          expected_parity = encode_table_at (unat info);
          syndrome = received_parity XOR expected_parity
      in syndrome)"

definition extract_info :: "u32 \<Rightarrow> u16" where
  "extract_info codeword = ucast (drop_bit 12 codeword AND 0xFFF)"

definition extract_parity :: "u32 \<Rightarrow> u16" where
  "extract_parity codeword = ucast (codeword AND 0xFFF)"

text \<open>
  The two static members of class \<^verbatim>\<open>Golay\<close>. At program start the table is
  zero-initialised and the flag is false.
\<close>

record golay_static =
  syndrome_table :: "u32 list"
  syndrome_table_initialized :: bool

definition golay_static_initial :: golay_static where
  "golay_static_initial =
     \<lparr>syndrome_table = replicate 4096 0, syndrome_table_initialized = False\<rparr>"

text \<open>
  \<^verbatim>\<open>Golay::init_syndrome_table\<close>. One step of each of its three loops: compute the
  syndrome of the pattern and store the pattern if the slot is still marked invalid.
  The syndrome is a 12-bit value (see \<open>compute_syndrome\<close>), the table has 4096 slots.
\<close>

definition record_pattern :: "u32 list \<Rightarrow> u32 \<Rightarrow> u32 list" where
  "record_pattern tbl error_pattern =
     (let syndrome = unat (compute_syndrome error_pattern)
      in if tbl ! syndrome = 0xFFFFFFFF then tbl[syndrome := error_pattern] else tbl)"

text \<open>The patterns in the order in which the nested loops enumerate them.\<close>

definition patterns1 :: "u32 list" where
  "patterns1 = map (\<lambda>bit. push_bit bit 1) [0..<24]"

definition patterns2 :: "u32 list" where
  "patterns2 =
     concat (map (\<lambda>bit1. map (\<lambda>bit2. push_bit bit1 1 OR push_bit bit2 1) [bit1 + 1..<24])
                 [0..<24])"

definition patterns3 :: "u32 list" where
  "patterns3 =
     concat (map (\<lambda>bit1.
       concat (map (\<lambda>bit2.
         map (\<lambda>bit3. push_bit bit1 1 OR push_bit bit2 1 OR push_bit bit3 1) [bit2 + 1..<24])
                   [bit1 + 1..<24]))
                 [0..<24])"

definition init_syndrome_table :: "golay_static \<Rightarrow> bool \<times> golay_static" where
  "init_syndrome_table st =
     (let t0 = replicate (length (syndrome_table st)) (0xFFFFFFFF :: u32);
          t1 = t0[0 := 0];
          t2 = foldl record_pattern t1 patterns1;
          t3 = foldl record_pattern t2 patterns2;
          t4 = foldl record_pattern t3 patterns3
      in (True, st\<lparr>syndrome_table := t4, syndrome_table_initialized := True\<rparr>))"

text \<open>The bit-counting loop at the end of \<^verbatim>\<open>Golay::decode\<close>.\<close>

function count_bits_set :: "u32 \<Rightarrow> u32 \<Rightarrow> u32" where
  "count_bits_set temp bits_set =
     (if temp = 0 then bits_set
      else count_bits_set (drop_bit 1 temp) (bits_set + (temp AND 1)))"
  by pat_completeness auto
termination
  by (relation "measure (\<lambda>(t, b). unat t)")
     (simp_all add: drop_bit_eq_div unat_div unat_gt_0)

text \<open>
  \<^verbatim>\<open>Golay::decode\<close> returns the error count; the decoded information word is written
  through the reference parameter \<open>output\<close>, and the static table may be initialised on the
  way. The model returns all three. The value \<^verbatim>\<open>error_count = compute_parity(error_pattern)\<close>
  is computed by the source and never used.
\<close>

definition decode :: "golay_static \<Rightarrow> u32 \<Rightarrow> u8 \<times> u16 \<times> golay_static" where
  "decode st0 codeword =
     (let st = (if \<not> syndrome_table_initialized st0 then snd (init_syndrome_table st0) else st0);
          syndrome = compute_syndrome codeword
      in if syndrome = 0 then (0, ucast (drop_bit 12 codeword AND 0xFFF), st)
         else
           let error_pattern = syndrome_table st ! unat syndrome
           in if error_pattern = 0xFFFFFFFF
              then (0xFF, ucast (drop_bit 12 codeword AND 0xFFF), st)
              else
                let corrected = codeword XOR error_pattern;
                    output = (ucast (drop_bit 12 corrected AND 0xFFF) :: u16);
                    bits_set = count_bits_set error_pattern 0
                in (ucast bits_set, output, st))"

section \<open>Floating-point values\<close>

text \<open>
  A C++ \<^verbatim>\<open>float\<close> is a finite number, an infinity or a NaN. Every finite float is a real
  number, so \<open>Fin\<close> ranges over a superset of the finite floats; what is proved for all values
  of this type holds for all floats. The code verified below compares and copies floats; the
  comparison \<^verbatim>\<open><\<close> is false as soon as one side is a NaN.
\<close>

datatype cfloat = Fin real | PInf | NInf | NaN

fun flt_less :: "cfloat \<Rightarrow> cfloat \<Rightarrow> bool" where
  "flt_less NaN y = False"
| "flt_less x NaN = False"
| "flt_less (Fin a) (Fin b) = (a < b)"
| "flt_less (Fin a) PInf = True"
| "flt_less (Fin a) NInf = False"
| "flt_less PInf y = False"
| "flt_less NInf (Fin b) = True"
| "flt_less NInf PInf = True"
| "flt_less NInf NInf = False"

text \<open>
  \<^verbatim>\<open>std::max(a, b)\<close> is \<^verbatim>\<open>(a < b) ? b : a\<close> and \<^verbatim>\<open>std::min(a, b)\<close> is
  \<^verbatim>\<open>(b < a) ? b : a\<close>.
\<close>

definition std_max :: "cfloat \<Rightarrow> cfloat \<Rightarrow> cfloat" where
  "std_max a b = (if flt_less a b then b else a)"

definition std_min :: "cfloat \<Rightarrow> cfloat \<Rightarrow> cfloat" where
  "std_min a b = (if flt_less b a then b else a)"

section \<open>Symbol detection and voting: src/src/fsk/symbol_decoder.cpp\<close>

definition FFT_SIZE :: nat where "FFT_SIZE = 64"
definition SYMBOLS_PER_WORD :: nat where "SYMBOLS_PER_WORD = 49"
definition SYMBOL_REPETITION :: nat where "SYMBOL_REPETITION = 3"
definition BITS_PER_SYMBOL :: nat where "BITS_PER_SYMBOL = 3"
definition WORD_BITS :: nat where "WORD_BITS = 24"

text \<open>
  \<^verbatim>\<open>SymbolDecoder::detect_symbol\<close>. The magnitudes are a \<^verbatim>\<open>std::array<float, 64>\<close>,
  here a list of length 64. One iteration of the loop over \<open>bin = 6, \<dots>, 13\<close>, on the pair
  \<open>(peak_mag, peak_bin)\<close>:
\<close>

definition detect_step :: "cfloat list \<Rightarrow> cfloat \<times> u32 \<Rightarrow> nat \<Rightarrow> cfloat \<times> u32" where
  "detect_step magnitudes pk bin =
     (if bin < FFT_SIZE \<and> flt_less (fst pk) (magnitudes ! bin)
      then (magnitudes ! bin, of_nat bin) else pk)"

definition detect_symbol :: "cfloat list \<Rightarrow> u8" where
  "detect_symbol magnitudes =
     (let pk = foldl (detect_step magnitudes) (Fin (- 1000000), 0xFF) [6..<14];
          peak_bin = snd pk
      in if peak_bin = 0xFF then 0xFF else ucast (peak_bin - 6))"

definition majority_vote :: "u8 list \<Rightarrow> u8" where
  "majority_vote bits = (let sum = bits ! 0 + bits ! 1 + bits ! 2 in if sum \<ge> 2 then 1 else 0)"

text \<open>
  \<^verbatim>\<open>SymbolDecoder::decode_word_with_voting\<close>. The three copies of bit \<open>bit_idx\<close> are read
  from the symbols at \<open>bit_idx\<close>, \<open>bit_idx + 49\<close> and \<open>bit_idx + 98\<close>; with \<open>bit_idx < 24\<close>
  the index stays below 147, so the \<^verbatim>\<open>break\<close> of the inner loop is never taken.
  The function returns the number of corrected bits and writes the word through
  \<open>output_word\<close>; the model returns the pair.
\<close>

definition bit_copy :: "u8 list \<Rightarrow> nat \<Rightarrow> nat \<Rightarrow> u8" where
  "bit_copy symbols bit_idx rep =
     (let sym_idx = bit_idx + rep * SYMBOLS_PER_WORD;
          symbol = symbols ! sym_idx
      in if symbol \<ge> 8 then 0xFF
         else let bit_in_symbol = bit_idx mod BITS_PER_SYMBOL
              in drop_bit bit_in_symbol symbol AND 1)"

definition vote_step :: "u8 list \<Rightarrow> u32 \<times> u32 \<Rightarrow> nat \<Rightarrow> u32 \<times> u32" where
  "vote_step symbols acc bit_idx =
     (let word = fst acc; errors_corrected = snd acc;
          bit_copies = map (bit_copy symbols bit_idx) [0..<SYMBOL_REPETITION];
          final_bit = majority_vote bit_copies;
          errors_corrected' =
            (if bit_copies ! 0 \<noteq> bit_copies ! 1 \<or> bit_copies ! 1 \<noteq> bit_copies ! 2
                \<or> bit_copies ! 0 \<noteq> bit_copies ! 2
             then errors_corrected + 1 else errors_corrected)
      in (word OR push_bit bit_idx (ucast final_bit), errors_corrected'))"

definition decode_word_with_voting :: "u8 list \<Rightarrow> u32 \<times> u32" where
  "decode_word_with_voting symbols =
     (let acc = foldl (vote_step symbols) (0, 0) [0..<WORD_BITS]
      in (snd acc, fst acc))"

section \<open>Word parser: src/src/protocol/ale_word.cpp\<close>

text \<open>
  A \<^verbatim>\<open>char\<close> is modelled by its 8-bit pattern. The characters handled here are built from
  7-bit fields or compared with ASCII constants below 128, so the signedness of
  \<^verbatim>\<open>char\<close> plays no role.
\<close>

type_synonym cchar = u8

datatype WordType = DATA | THRU | TO | TWS | FROM | TIS | CMD | REP | UNKNOWN

record ALEWord =
  type :: WordType
  address :: "cchar list"
  raw_payload :: u32
  fec_errors :: u8
  valid :: bool
  timestamp_ms :: u32

text \<open>The constructor \<^verbatim>\<open>ALEWord()\<close>.\<close>

definition ALEWord_new :: ALEWord where
  "ALEWord_new = \<lparr>type = UNKNOWN, address = [0, 0, 0, 0], raw_payload = 0, fec_errors = 0,
                   valid = False, timestamp_ms = 0\<rparr>"

text \<open>\<^verbatim>\<open>static_cast<WordType>(preamble)\<close> for the enumerator values.\<close>

definition WordType_of :: "u8 \<Rightarrow> WordType" where
  "WordType_of v =
     (if v = 0 then DATA else if v = 1 then THRU else if v = 2 then TO else if v = 3 then TWS
      else if v = 4 then FROM else if v = 5 then TIS else if v = 6 then CMD
      else if v = 7 then REP else UNKNOWN)"

definition extract_preamble :: "u32 \<Rightarrow> WordType" where
  "extract_preamble word_bits =
     (let preamble = (ucast (word_bits AND 0x07) :: u8)
      in if preamble > 7 then UNKNOWN else WordType_of preamble)"

definition extract_payload :: "u32 \<Rightarrow> u32" where
  "extract_payload word_bits = drop_bit 3 word_bits AND 0x1FFFFF"

definition is_valid_ale_char :: "cchar \<Rightarrow> bool" where
  "is_valid_ale_char ch =
     (if ch \<ge> 0x41 \<and> ch \<le> 0x5A then True
      else if ch \<ge> 0x30 \<and> ch \<le> 0x39 then True
      else if ch = 0x20 \<or> ch = 0x40 \<or> ch = 0x3F \<or> ch = 0x2E \<or> ch = 0x2D \<or> ch = 0x2F
      then True
      else False)"

text \<open>\<^verbatim>\<open>WordParser::decode_ascii\<close> returns the flag and fills the 4-character buffer.\<close>

definition decode_ascii :: "u32 \<Rightarrow> bool \<times> cchar list" where
  "decode_ascii payload =
     (let char0 = (ucast (drop_bit 0 payload AND 0x7F) :: cchar);
          char1 = (ucast (drop_bit 7 payload AND 0x7F) :: cchar);
          char2 = (ucast (drop_bit 14 payload AND 0x7F) :: cchar)
      in if \<not> is_valid_ale_char char0 \<or> \<not> is_valid_ale_char char1 \<or> \<not> is_valid_ale_char char2
         then (False, [0x3F, 0x3F, 0x3F, 0])
         else (True, [char0, char1, char2, 0]))"

definition parse_from_bits :: "u32 \<Rightarrow> ALEWord \<Rightarrow> bool \<times> ALEWord" where
  "parse_from_bits word_bits output =
     (let o1 = output\<lparr>type := extract_preamble word_bits\<rparr>;
          o2 = o1\<lparr>raw_payload := extract_payload word_bits\<rparr>;
          r = decode_ascii (raw_payload o2);
          ascii_valid = fst r;
          o3 = o2\<lparr>address := snd r\<rparr>;
          o4 = o3\<lparr>valid := ascii_valid\<rparr>
      in (ascii_valid, o4))"

text \<open>
  \<^verbatim>\<open>WordParser::parse_word\<close>. The symbols are the caller's array; the result is the
  returned flag, the \<open>output\<close> word as left by the call and the Golay static state.
\<close>

definition parse_word :: "golay_static \<Rightarrow> u8 list \<Rightarrow> ALEWord \<Rightarrow> bool \<times> ALEWord \<times> golay_static" where
  "parse_word gs symbols output =
     (let v = decode_word_with_voting symbols;
          errors = fst v; raw_word = snd v;
          d = decode gs raw_word;
          fec_errors' = fst d; decoded_info = fst (snd d); gs' = snd (snd d)
      in if fec_errors' = 0xFF then (False, output\<lparr>valid := False\<rparr>, gs')
         else
           let o1 = output\<lparr>fec_errors := fec_errors'\<rparr>;
               r = parse_from_bits (raw_word AND 0xFFFFFF) o1
           in (fst r, snd r, gs'))"

section \<open>Link state machine: src/src/link/ale_state_machine.cpp\<close>

datatype ALEState = IDLE | SCANNING | CALLING | HANDSHAKE | LINKED | SOUNDING | ERROR

datatype ALEEvent =
  START_SCAN | STOP_SCAN | CALL_REQUEST | CALL_DETECTED | HANDSHAKE_COMPLETE | LINK_TIMEOUT
  | LINK_TERMINATED | SOUNDING_REQUEST | SOUNDING_COMPLETE | ERROR_OCCURRED

record Channel =
  frequency_hz :: u32
  mode :: "cchar list"
  lqa_score :: cfloat
  last_scan_time_ms :: u32
  call_count :: u32

record ScanConfig =
  scan_list :: "Channel list"
  dwell_time_ms :: u32
  channel_index :: u32
  enabled :: bool

text \<open>
  The members of \<^verbatim>\<open>ALEStateMachine\<close> that \<^verbatim>\<open>process_event\<close> and \<^verbatim>\<open>update\<close>
  read or write. Of the address book only the self address is used. The message assembler
  and the per-channel quality vector are touched by \<^verbatim>\<open>process_received_word\<close> alone
  and are left out. Each of the three \<^verbatim>\<open>std::function\<close> callbacks is a flag (is a target
  set?) and the list of the calls made so far, in order; a callback is taken not to call
  back into the machine.
\<close>

record ALEStateMachine =
  current_state :: ALEState
  previous_state :: ALEState
  scan_config :: ScanConfig
  self_address :: "cchar list"
  active_call_to :: "cchar list"
  active_call_from :: "cchar list"
  link_start_time_ms :: u32
  last_word_time_ms :: u32
  state_entry_time_ms :: u32
  last_scan_hop_time_ms :: u32
  current_time_ms :: u32
  state_callback :: bool
  transmit_callback :: bool
  channel_callback :: bool
  state_callback_calls :: "(ALEState \<times> ALEState) list"
  transmit_callback_calls :: "ALEWord list"
  channel_callback_calls :: "Channel list"

definition WORD_DURATION_MS :: u32 where "WORD_DURATION_MS = 392"
definition CALL_TIMEOUT_MS :: u32 where "CALL_TIMEOUT_MS = 30000"
definition LINK_TIMEOUT_MS :: u32 where "LINK_TIMEOUT_MS = 120000"

text \<open>The constructors \<^verbatim>\<open>ScanConfig()\<close> and \<^verbatim>\<open>ALEStateMachine()\<close>.\<close>

definition ScanConfig_new :: ScanConfig where
  "ScanConfig_new = \<lparr>scan_list = [], dwell_time_ms = 200, channel_index = 0, enabled = False\<rparr>"

definition ALEStateMachine_new :: ALEStateMachine where
  "ALEStateMachine_new =
     \<lparr>current_state = IDLE, previous_state = IDLE, scan_config = ScanConfig_new,
      self_address = [], active_call_to = [], active_call_from = [],
      link_start_time_ms = 0, last_word_time_ms = 0, state_entry_time_ms = 0,
      last_scan_hop_time_ms = 0, current_time_ms = 0,
      state_callback = False, transmit_callback = False, channel_callback = False,
      state_callback_calls = [], transmit_callback_calls = [], channel_callback_calls = []\<rparr>"

definition transmit_word :: "ALEStateMachine \<Rightarrow> ALEWord \<Rightarrow> ALEStateMachine" where
  "transmit_word sm word =
     (if transmit_callback sm
      then sm\<lparr>transmit_callback_calls := transmit_callback_calls sm @ [word]\<rparr>
      else sm)"

definition set_channel :: "ALEStateMachine \<Rightarrow> u32 \<Rightarrow> ALEStateMachine" where
  "set_channel sm index =
     (if unat index \<ge> length (scan_list (scan_config sm)) then sm
      else
        let sc = scan_config sm;
            ch = (scan_list sc ! unat index)\<lparr>last_scan_time_ms := current_time_ms sm\<rparr>;
            sm1 = sm\<lparr>scan_config :=
                     sc\<lparr>channel_index := index, scan_list := (scan_list sc)[unat index := ch]\<rparr>\<rparr>
        in if channel_callback sm1
           then sm1\<lparr>channel_callback_calls := channel_callback_calls sm1 @ [ch]\<rparr>
           else sm1)"

text \<open>
  \<^verbatim>\<open>strncpy(dest, src, n)\<close> on a destination of at least \<open>n\<close> characters: the characters
  of \<open>src\<close> up to its first NUL, at most \<open>n\<close> of them, padded with NULs to \<open>n\<close>.
\<close>

definition strncpy :: "cchar list \<Rightarrow> cchar list \<Rightarrow> nat \<Rightarrow> cchar list" where
  "strncpy dest src n =
     (let s = takeWhile (\<lambda>c. c \<noteq> 0) src
      in take n s @ replicate (n - length s) 0 @ drop n dest)"

definition enter_state :: "ALEStateMachine \<Rightarrow> ALEState \<Rightarrow> ALEStateMachine" where
  "enter_state sm new_state =
     (case new_state of
        SCANNING \<Rightarrow>
          let sm1 = sm\<lparr>scan_config := (scan_config sm)\<lparr>channel_index := 0\<rparr>\<rparr>;
              sm2 = sm1\<lparr>last_scan_hop_time_ms := current_time_ms sm1\<rparr>
          in if scan_list (scan_config sm2) \<noteq> [] then set_channel sm2 0 else sm2
      | CALLING \<Rightarrow> sm\<lparr>link_start_time_ms := current_time_ms sm\<rparr>
      | HANDSHAKE \<Rightarrow> sm\<lparr>link_start_time_ms := current_time_ms sm\<rparr>
      | LINKED \<Rightarrow>
          sm\<lparr>link_start_time_ms := current_time_ms sm, last_word_time_ms := current_time_ms sm\<rparr>
      | SOUNDING \<Rightarrow>
          if self_address sm \<noteq> []
          then
            let tis_word = ALEWord_new\<lparr>type := TIS\<rparr>;
                self = self_address sm;
                w1 = tis_word\<lparr>address := strncpy (address tis_word) self 3\<rparr>;
                w2 = w1\<lparr>valid := True, timestamp_ms := current_time_ms sm\<rparr>
            in transmit_word sm w2
          else sm
      | _ \<Rightarrow> sm)"

definition exit_state :: "ALEStateMachine \<Rightarrow> ALEState \<Rightarrow> ALEStateMachine" where
  "exit_state sm old_state =
     (case old_state of
        LINKED \<Rightarrow> sm\<lparr>active_call_to := [], active_call_from := []\<rparr>
      | _ \<Rightarrow> sm)"

definition transition_to :: "ALEStateMachine \<Rightarrow> ALEState \<Rightarrow> bool \<times> ALEStateMachine" where
  "transition_to sm new_state =
     (if current_state sm = new_state then (False, sm)
      else
        let sm1 = exit_state sm (current_state sm);
            sm2 = sm1\<lparr>previous_state := current_state sm1\<rparr>;
            sm3 = sm2\<lparr>current_state := new_state\<rparr>;
            sm4 = sm3\<lparr>state_entry_time_ms := current_time_ms sm3\<rparr>;
            sm5 = enter_state sm4 new_state;
            sm6 = (if state_callback sm5
                   then sm5\<lparr>state_callback_calls :=
                          state_callback_calls sm5 @ [(previous_state sm5, current_state sm5)]\<rparr>
                   else sm5)
        in (True, sm6))"

text \<open>
  \<^verbatim>\<open>ALEStateMachine::process_event\<close>. A \<^verbatim>\<open>break\<close> of the switch falls through to the
  test for \<open>ERROR_OCCURRED\<close> that follows it, here \<open>after_switch\<close>; a \<^verbatim>\<open>return\<close> inside a
  case does not reach it.
\<close>

definition after_switch :: "ALEStateMachine \<Rightarrow> ALEEvent \<Rightarrow> bool \<times> ALEStateMachine" where
  "after_switch sm event =
     (if event = ERROR_OCCURRED then transition_to sm ERROR else (False, sm))"

definition process_event :: "ALEStateMachine \<Rightarrow> ALEEvent \<Rightarrow> bool \<times> ALEStateMachine" where
  "process_event sm event =
     (case current_state sm of
        IDLE \<Rightarrow>
          if event = START_SCAN then transition_to sm SCANNING
          else if event = CALL_REQUEST then transition_to sm CALLING
          else if event = SOUNDING_REQUEST then transition_to sm SOUNDING
          else after_switch sm event
      | SCANNING \<Rightarrow>
          if event = STOP_SCAN then transition_to sm IDLE
          else if event = CALL_DETECTED then transition_to sm HANDSHAKE
          else if event = CALL_REQUEST then transition_to sm CALLING
          else after_switch sm event
      | CALLING \<Rightarrow>
          if event = HANDSHAKE_COMPLETE then transition_to sm LINKED
          else if event = LINK_TIMEOUT then transition_to sm IDLE
          else after_switch sm event
      | HANDSHAKE \<Rightarrow>
          if event = HANDSHAKE_COMPLETE then transition_to sm LINKED
          else if event = LINK_TIMEOUT then transition_to sm SCANNING
          else after_switch sm event
      | LINKED \<Rightarrow>
          if event = LINK_TERMINATED \<or> event = LINK_TIMEOUT then transition_to sm IDLE
          else after_switch sm event
      | SOUNDING \<Rightarrow>
          if event = SOUNDING_COMPLETE then transition_to sm SCANNING
          else after_switch sm event
      | ERROR \<Rightarrow>
          if event = START_SCAN then transition_to sm SCANNING
          else transition_to sm IDLE)"

definition check_link_timeout :: "ALEStateMachine \<Rightarrow> bool" where
  "check_link_timeout sm =
     (case current_state sm of
        CALLING \<Rightarrow> current_time_ms sm - state_entry_time_ms sm > CALL_TIMEOUT_MS
      | HANDSHAKE \<Rightarrow> current_time_ms sm - state_entry_time_ms sm > CALL_TIMEOUT_MS
      | LINKED \<Rightarrow> current_time_ms sm - state_entry_time_ms sm > LINK_TIMEOUT_MS
      | _ \<Rightarrow> False)"

definition check_scan_dwell_timeout :: "ALEStateMachine \<Rightarrow> bool" where
  "check_scan_dwell_timeout sm =
     (if current_state sm \<noteq> SCANNING then False
      else current_time_ms sm - last_scan_hop_time_ms sm \<ge> dwell_time_ms (scan_config sm))"

text \<open>
  \<^verbatim>\<open>hop_to_next_channel\<close>: \<open>channel_index + 1\<close> is computed in 32 bits, the remainder by
  the list size in \<^verbatim>\<open>size_t\<close>.
\<close>

definition hop_to_next_channel :: "ALEStateMachine \<Rightarrow> ALEStateMachine" where
  "hop_to_next_channel sm =
     (if scan_list (scan_config sm) = [] then sm
      else
        let sc = scan_config sm;
            idx = (of_nat (unat (channel_index sc + 1) mod length (scan_list sc)) :: u32);
            sm1 = sm\<lparr>scan_config := sc\<lparr>channel_index := idx\<rparr>\<rparr>;
            sm2 = set_channel sm1 (channel_index (scan_config sm1))
        in sm2\<lparr>last_scan_hop_time_ms := current_time_ms sm2\<rparr>)"

definition handle_scanning :: "ALEStateMachine \<Rightarrow> ALEStateMachine" where
  "handle_scanning sm = (if check_scan_dwell_timeout sm then hop_to_next_channel sm else sm)"

definition handle_sounding :: "ALEStateMachine \<Rightarrow> ALEStateMachine" where
  "handle_sounding sm =
     (let elapsed = current_time_ms sm - state_entry_time_ms sm
      in if elapsed > WORD_DURATION_MS then snd (process_event sm SOUNDING_COMPLETE) else sm)"

text \<open>
  \<^verbatim>\<open>ALEStateMachine::update\<close>; \<^verbatim>\<open>handle_calling\<close>, \<^verbatim>\<open>handle_handshake\<close> and
  \<^verbatim>\<open>handle_linked\<close> have empty bodies.
\<close>

definition update :: "ALEStateMachine \<Rightarrow> u32 \<Rightarrow> ALEStateMachine" where
  "update sm now =
     (let sm1 = sm\<lparr>current_time_ms := now\<rparr>;
          sm2 = (if check_link_timeout sm1 then snd (process_event sm1 LINK_TIMEOUT) else sm1)
      in case current_state sm2 of
           SCANNING \<Rightarrow> handle_scanning sm2
         | CALLING \<Rightarrow> sm2
         | HANDSHAKE \<Rightarrow> sm2
         | LINKED \<Rightarrow> sm2
         | SOUNDING \<Rightarrow> handle_sounding sm2
         | _ \<Rightarrow> sm2)"

section \<open>FS-1052 frames: src/src/fs1052/frame_format.cpp\<close>

definition CRC32_POLYNOMIAL :: u32 where "CRC32_POLYNOMIAL = 0x04C11DB7"
definition MAX_DATA_BLOCK_LENGTH :: nat where "MAX_DATA_BLOCK_LENGTH = 1023"

text \<open>One iteration of the loop of \<^verbatim>\<open>crc32_byte\<close>, then the function itself.\<close>

definition crc32_shift :: "u32 \<Rightarrow> u32" where
  "crc32_shift crc =
     (if crc AND 0x80000000 \<noteq> 0 then push_bit 1 crc XOR CRC32_POLYNOMIAL else push_bit 1 crc)"

definition crc32_byte :: "u8 \<Rightarrow> u32 \<Rightarrow> u32" where
  "crc32_byte d crc =
     (let crc1 = crc XOR push_bit 24 (ucast d :: u32)
      in foldl (\<lambda>c i. crc32_shift c) crc1 [0..<8])"

definition calculate_crc32 :: "u8 list \<Rightarrow> u32" where
  "calculate_crc32 bytes = NOT (foldl (\<lambda>crc d. crc32_byte d crc) 0xFFFFFFFF bytes)"

text \<open>
  A buffer is the list of the bytes written to it so far. \<^verbatim>\<open>append_crc32\<close> writes the
  four CRC bytes behind the first \<open>length\<close> bytes, most significant byte first.
\<close>

definition append_crc32 :: "u8 list \<Rightarrow> u8 list" where
  "append_crc32 buffer =
     (let crc = calculate_crc32 buffer
      in buffer @ [ucast (drop_bit 24 crc AND 0xFF), ucast (drop_bit 16 crc AND 0xFF),
                   ucast (drop_bit 8 crc AND 0xFF), ucast (crc AND 0xFF)])"

text \<open>
  \<^verbatim>\<open>DataRateFormat\<close> has the enumerators ABSOLUTE = 0 and RELATIVE = 1; the parser
  produces it from a single bit. \<^verbatim>\<open>InterleaverLength\<close> (SHORT = 0, LONG = 1) is an
  \<^verbatim>\<open>enum class : uint8_t\<close> to which the parser casts a whole received byte, so it is
  kept as its byte.
\<close>

datatype DataRateFormat = ABSOLUTE | RELATIVE

definition DataRateFormat_to_u8 :: "DataRateFormat \<Rightarrow> u8" where
  "DataRateFormat_to_u8 f = (case f of ABSOLUTE \<Rightarrow> 0 | RELATIVE \<Rightarrow> 1)"

definition DataRateFormat_of_u8 :: "u8 \<Rightarrow> DataRateFormat" where
  "DataRateFormat_of_u8 v = (if v = 0 then ABSOLUTE else RELATIVE)"

type_synonym InterleaverLength = u8

definition SHORT :: InterleaverLength where "SHORT = 0"
definition LONG :: InterleaverLength where "LONG = 1"

datatype DataRate =
  BPS_75 | BPS_150 | BPS_300 | BPS_600 | BPS_1200 | BPS_2400 | BPS_4800 | SAME

definition DataRate_to_u8 :: "DataRate \<Rightarrow> u8" where
  "DataRate_to_u8 r =
     (case r of BPS_75 \<Rightarrow> 0 | BPS_150 \<Rightarrow> 1 | BPS_300 \<Rightarrow> 2 | BPS_600 \<Rightarrow> 3 | BPS_1200 \<Rightarrow> 4
              | BPS_2400 \<Rightarrow> 5 | BPS_4800 \<Rightarrow> 6 | SAME \<Rightarrow> 7)"

text \<open>\<^verbatim>\<open>struct DataFrame\<close>; \<open>data\<close> is the array of 1023 bytes.\<close>

record DataFrame =
  data_rate_format :: DataRateFormat
  data_rate :: u8
  interleaver_length :: InterleaverLength
  sequence_number :: u8
  msg_byte_offset :: u32
  data_length :: u16
  data :: "u8 list"
  crc32 :: u32

definition DataFrame_new :: DataFrame where
  "DataFrame_new =
     \<lparr>data_rate_format = ABSOLUTE, data_rate = DataRate_to_u8 BPS_2400,
      interleaver_length = LONG, sequence_number = 0, msg_byte_offset = 0,
      data_length = 0, data = replicate MAX_DATA_BLOCK_LENGTH 0, crc32 = 0\<rparr>"

text \<open>
  \<^verbatim>\<open>memcpy(dest, src, n)\<close> into an array: the first \<open>n\<close> elements of \<open>dest\<close> are replaced
  by those of \<open>src\<close>. Both arrays hold at least \<open>n\<close> elements wherever the code below calls
  it on a block or frame of at most 1023 bytes.
\<close>

definition memcpy :: "'a list \<Rightarrow> 'a list \<Rightarrow> nat \<Rightarrow> 'a list" where
  "memcpy dest src n = take n src @ drop n dest"

text \<open>
  \<^verbatim>\<open>FrameFormatter::format_data_frame\<close> returns -1, here \<open>None\<close>, when the buffer is too
  small, and otherwise the number of bytes written, here the bytes themselves.
\<close>

definition format_data_frame :: "DataFrame \<Rightarrow> nat \<Rightarrow> u8 list option" where
  "format_data_frame frame buffer_size =
     (if buffer_size < unat (data_length frame) + 20 then None
      else
        let b0 = (0x01 :: u8);
            b0 = b0 OR push_bit 7 (DataRateFormat_to_u8 (data_rate_format frame));
            b0 = b0 OR push_bit 4 (data_rate frame AND 0x07);
            header =
              [b0, interleaver_length frame, sequence_number frame,
               ucast (drop_bit 24 (msg_byte_offset frame) AND 0xFF),
               ucast (drop_bit 16 (msg_byte_offset frame) AND 0xFF),
               ucast (drop_bit 8 (msg_byte_offset frame) AND 0xFF),
               ucast (msg_byte_offset frame AND 0xFF),
               ucast (drop_bit 8 (data_length frame) AND 0xFF),
               ucast (data_length frame AND 0xFF)];
            payload = take (unat (data_length frame)) (data frame)
        in Some (append_crc32 (header @ payload)))"

text \<open>\<^verbatim>\<open>FrameParser::validate_crc32\<close> on a buffer of the given bytes.\<close>

definition validate_crc32 :: "u8 list \<Rightarrow> bool" where
  "validate_crc32 buffer =
     (if length buffer < 4 then False
      else
        let n = length buffer;
            calculated_crc = calculate_crc32 (take (n - 4) buffer);
            received_crc =
              push_bit 24 (ucast (buffer ! (n - 4)) :: u32) OR
              push_bit 16 (ucast (buffer ! (n - 3)) :: u32) OR
              push_bit 8 (ucast (buffer ! (n - 2)) :: u32) OR
              (ucast (buffer ! (n - 1)) :: u32)
        in calculated_crc = received_crc)"

text \<open>
  \<^verbatim>\<open>FrameParser::parse_data_frame\<close> returns the flag and fills the caller's frame; the
  fields parsed before a failed length check stay written.
\<close>

definition parse_data_frame :: "u8 list \<Rightarrow> DataFrame \<Rightarrow> bool \<times> DataFrame" where
  "parse_data_frame buffer frame =
     (if length buffer < 13 then (False, frame)
      else if \<not> validate_crc32 buffer then (False, frame)
      else
        let f1 = frame\<lparr>data_rate_format := DataRateFormat_of_u8 (drop_bit 7 (buffer ! 0) AND 0x01)\<rparr>;
            f2 = f1\<lparr>data_rate := drop_bit 4 (buffer ! 0) AND 0x07\<rparr>;
            f3 = f2\<lparr>interleaver_length := buffer ! 1\<rparr>;
            f4 = f3\<lparr>sequence_number := buffer ! 2\<rparr>;
            f5 = f4\<lparr>msg_byte_offset :=
                      push_bit 24 (ucast (buffer ! 3) :: u32) OR
                      push_bit 16 (ucast (buffer ! 4) :: u32) OR
                      push_bit 8 (ucast (buffer ! 5) :: u32) OR
                      (ucast (buffer ! 6) :: u32)\<rparr>;
            f6 = f5\<lparr>data_length := push_bit 8 (ucast (buffer ! 7) :: u16) OR ucast (buffer ! 8)\<rparr>;
            index = 9
        in if unat (data_length f6) > MAX_DATA_BLOCK_LENGTH
              \<or> index + unat (data_length f6) + 4 \<noteq> length buffer
           then (False, f6)
           else (True, f6\<lparr>data := memcpy (data f6) (drop index buffer) (unat (data_length f6))\<rparr>))"

section \<open>Variable ARQ: src/src/fs1052/fs1052_arq.cpp\<close>

text \<open>
  Names of \<^verbatim>\<open>VariableARQ\<close> that the link state machine also uses carry the prefix
  \<open>arq_\<close> here: the states IDLE and ERROR, \<open>transition_to\<close>, \<open>process_event\<close>.
\<close>

datatype ARQState = ARQ_IDLE | TX_DATA | WAIT_ACK | RX_DATA | SEND_ACK | RETRANSMIT | ARQ_ERROR

datatype ARQEvent =
  START_TX | DATA_READY | FRAME_SENT | ACK_RECEIVED | NAK_RECEIVED | TIMEOUT | START_RX
  | FRAME_RECEIVED | TRANSFER_COMPLETE | ERROR_EVENT | RESET

text \<open>
  \<^verbatim>\<open>struct DataBlock\<close>. The fields \<^verbatim>\<open>length\<close> and \<^verbatim>\<open>data\<close> are \<open>blk_length\<close> and
  \<open>blk_data\<close>; \<open>blk_data\<close> holds the \<open>blk_length\<close> bytes that \<^verbatim>\<open>create_blocks\<close> copies into
  the array (the rest of the array is never initialised nor read).
\<close>

record DataBlock =
  sequence :: u8
  offset :: u32
  blk_length :: u16
  blk_data :: "u8 list"
  acknowledged :: bool
  retransmit_count :: u8
  timestamp :: u32

record ARQStats =
  blocks_sent :: u32
  blocks_received :: u32
  blocks_retransmitted :: u32
  acks_sent :: u32
  acks_received :: u32
  naks_received :: u32
  timeouts :: u32
  crc_errors :: u32
  sequence_errors :: u32

definition ARQStats_zero :: ARQStats where
  "ARQStats_zero =
     \<lparr>blocks_sent = 0, blocks_received = 0, blocks_retransmitted = 0, acks_sent = 0,
      acks_received = 0, naks_received = 0, timeouts = 0, crc_errors = 0, sequence_errors = 0\<rparr>"

text \<open>
  The members of \<^verbatim>\<open>VariableARQ\<close>. A callback is a flag (is a target set?) and the list
  of its calls so far, in order: the frames handed to \<open>m_tx_callback\<close>, the state pairs
  handed to \<open>m_state_callback\<close>, the messages handed to \<open>m_error_callback\<close>. A callback
  is taken not to call back into the object.
\<close>

record VariableARQ =
  m_state :: ARQState
  m_prev_state :: ARQState
  m_tx_callback :: bool
  m_state_callback :: bool
  m_error_callback :: bool
  m_tx_callback_calls :: "u8 list list"
  m_state_callback_calls :: "(ARQState \<times> ARQState) list"
  m_error_callback_calls :: "string list"
  m_tx_blocks :: "DataBlock list"
  m_retransmit_queue :: "u8 list"
  m_next_tx_sequence :: u8
  m_window_base :: u8
  m_window_size :: u8
  m_rx_buffer :: "u8 list"
  m_rx_bitmap :: "bool list"
  m_expected_sequence :: u8
  m_rx_msg_length :: u32
  m_last_tx_time :: u32
  m_ack_timeout :: u32
  m_wait_start_time :: u32
  m_data_rate :: DataRate
  m_max_retransmits :: u8
  m_stats :: ARQStats

definition DEFAULT_ACK_TIMEOUT :: u32 where "DEFAULT_ACK_TIMEOUT = 5000"
definition DEFAULT_MAX_RETRANSMITS :: u8 where "DEFAULT_MAX_RETRANSMITS = 3"
definition DEFAULT_WINDOW_SIZE :: u8 where "DEFAULT_WINDOW_SIZE = 16"

text \<open>The constructor \<^verbatim>\<open>VariableARQ()\<close>.\<close>

definition VariableARQ_new :: VariableARQ where
  "VariableARQ_new =
     \<lparr>m_state = ARQ_IDLE, m_prev_state = ARQ_IDLE,
      m_tx_callback = False, m_state_callback = False, m_error_callback = False,
      m_tx_callback_calls = [], m_state_callback_calls = [], m_error_callback_calls = [],
      m_tx_blocks = [], m_retransmit_queue = [],
      m_next_tx_sequence = 0, m_window_base = 0, m_window_size = DEFAULT_WINDOW_SIZE,
      m_rx_buffer = [], m_rx_bitmap = replicate 256 False, m_expected_sequence = 0,
      m_rx_msg_length = 0, m_last_tx_time = 0, m_ack_timeout = DEFAULT_ACK_TIMEOUT,
      m_wait_start_time = 0, m_data_rate = BPS_2400,
      m_max_retransmits = DEFAULT_MAX_RETRANSMITS, m_stats = ARQStats_zero\<rparr>"

text \<open>\<^verbatim>\<open>VariableARQ::init\<close>: a null \<^verbatim>\<open>std::function\<close> is a flag that is false.\<close>

definition init :: "VariableARQ \<Rightarrow> bool \<Rightarrow> bool \<Rightarrow> bool \<Rightarrow> VariableARQ" where
  "init st tx_cb state_cb error_cb =
     st\<lparr>m_tx_callback := tx_cb, m_state_callback := state_cb, m_error_callback := error_cb\<rparr>"

definition report_error :: "VariableARQ \<Rightarrow> string \<Rightarrow> VariableARQ" where
  "report_error st msg =
     (if m_error_callback st
      then st\<lparr>m_error_callback_calls := m_error_callback_calls st @ [msg]\<rparr>
      else st)"

definition arq_transition_to :: "VariableARQ \<Rightarrow> ARQState \<Rightarrow> VariableARQ" where
  "arq_transition_to st new_state =
     (if new_state \<noteq> m_state st
      then
        let old = m_state st;
            st1 = st\<lparr>m_prev_state := old\<rparr>;
            st2 = st1\<lparr>m_state := new_state\<rparr>
        in if m_state_callback st2
           then st2\<lparr>m_state_callback_calls := m_state_callback_calls st2 @ [(old, new_state)]\<rparr>
           else st2
      else st)"

text \<open>
  \<^verbatim>\<open>VariableARQ::reset\<close>. The loop that pops the retransmit queue until it is empty
  leaves the empty queue.
\<close>

definition reset :: "VariableARQ \<Rightarrow> VariableARQ" where
  "reset st =
     (let st1 = arq_transition_to st ARQ_IDLE;
          st2 = st1\<lparr>m_tx_blocks := []\<rparr>;
          st3 = st2\<lparr>m_retransmit_queue := []\<rparr>;
          st4 = st3\<lparr>m_rx_buffer := []\<rparr>;
          st5 = st4\<lparr>m_next_tx_sequence := 0\<rparr>;
          st6 = st5\<lparr>m_window_base := 0\<rparr>;
          st7 = st6\<lparr>m_expected_sequence := 0\<rparr>;
          st8 = st7\<lparr>m_rx_bitmap := replicate 256 False\<rparr>
      in st8\<lparr>m_stats := ARQStats_zero\<rparr>)"

text \<open>
  \<^verbatim>\<open>find_block\<close> returns a pointer to the first block with the sequence number, or null:
  here the index of that block, or \<open>None\<close>.
\<close>

fun find_block_from :: "DataBlock list \<Rightarrow> u8 \<Rightarrow> nat \<Rightarrow> nat option" where
  "find_block_from [] seq i = None"
| "find_block_from (b # bs) seq i =
     (if sequence b = seq then Some i else find_block_from bs seq (Suc i))"

definition find_block :: "VariableARQ \<Rightarrow> u8 \<Rightarrow> nat option" where
  "find_block st seq = find_block_from (m_tx_blocks st) seq 0"

definition all_blocks_acked :: "VariableARQ \<Rightarrow> bool" where
  "all_blocks_acked st = list_all acknowledged (m_tx_blocks st)"

text \<open>
  \<^verbatim>\<open>create_blocks\<close>. \<open>data\<close> is the caller's array of \<open>len\<close> bytes, \<open>len\<close> a
  \<^verbatim>\<open>uint32_t\<close>. The loop keeps \<open>offset \<le> len\<close>, so the 32-bit \<open>offset\<close> never wraps and
  is a natural number here; \<open>seq\<close> is the 8-bit counter, whose increment wraps by itself
  (the test \<^verbatim>\<open>seq >= 256\<close> of the source can never hold).
\<close>

function create_blocks_loop ::
  "u8 list \<Rightarrow> nat \<Rightarrow> nat \<Rightarrow> u8 \<Rightarrow> DataBlock list \<Rightarrow> DataBlock list" where
  "create_blocks_loop bytes len off seq blocks =
     (if off < len then
        let n = min MAX_DATA_BLOCK_LENGTH (len - off);
            block = \<lparr>sequence = seq, offset = of_nat off, blk_length = of_nat n,
                      blk_data = take n (drop off bytes), acknowledged = False,
                      retransmit_count = 0, timestamp = 0\<rparr>;
            seq1 = seq + 1;
            seq2 = (if unat seq1 \<ge> 256 then 0 else seq1)
        in create_blocks_loop bytes len (off + n) seq2 (blocks @ [block])
      else blocks)"
  by pat_completeness auto
termination
  by (relation "measure (\<lambda>(bytes, len, off, seq, blocks). len - off)")
     (auto simp add: MAX_DATA_BLOCK_LENGTH_def)

declare create_blocks_loop.simps [simp del]

definition create_blocks :: "VariableARQ \<Rightarrow> u8 list \<Rightarrow> VariableARQ" where
  "create_blocks st bytes =
     (let st1 = st\<lparr>m_tx_blocks := []\<rparr>;
          st2 = st1\<lparr>m_next_tx_sequence := 0\<rparr>;
          st3 = st2\<lparr>m_window_base := 0\<rparr>
      in st3\<lparr>m_tx_blocks := create_blocks_loop bytes (length bytes) 0 0 (m_tx_blocks st3)\<rparr>)"

text \<open>
  \<^verbatim>\<open>send_block\<close>: build the data frame of the block, format it into a 1200-byte buffer
  and hand it to the transmit callback.
\<close>

definition send_block :: "VariableARQ \<Rightarrow> u8 \<Rightarrow> VariableARQ" where
  "send_block st seq =
     (case find_block st seq of
        None \<Rightarrow> st
      | Some i \<Rightarrow>
          if \<not> m_tx_callback st then st
          else
            let block = m_tx_blocks st ! i;
                frame = DataFrame_new
                  \<lparr>data_rate_format := ABSOLUTE, data_rate := DataRate_to_u8 (m_data_rate st),
                   interleaver_length := SHORT, sequence_number := sequence block,
                   msg_byte_offset := offset block, data_length := blk_length block\<rparr>;
                frame1 = frame\<lparr>data := memcpy (data frame) (blk_data block)
                                           (unat (blk_length block))\<rparr>
            in case format_data_frame frame1 1200 of
                 None \<Rightarrow> st
               | Some buffer \<Rightarrow>
                   if length buffer > 0
                   then
                     let st1 = st\<lparr>m_tx_callback_calls := m_tx_callback_calls st @ [buffer]\<rparr>;
                         st2 = st1\<lparr>m_tx_blocks :=
                                 (m_tx_blocks st1)[i := block\<lparr>timestamp := m_last_tx_time st1\<rparr>]\<rparr>
                     in st2\<lparr>m_stats := (m_stats st2)\<lparr>blocks_sent := blocks_sent (m_stats st2) + 1\<rparr>\<rparr>
                   else st)"

text \<open>
  The loop of \<^verbatim>\<open>send_next_blocks\<close>, on the object and the counter \<open>sent\<close>. Its body
  first; the loop itself need not terminate on every state (with 256 or more blocks of
  which the first of each sequence number is acknowledged, \<open>sent\<close> never grows), so it is
  a partial function and \<open>None\<close> is a loop that never returns.
\<close>

definition send_next_blocks_body :: "VariableARQ \<Rightarrow> nat \<Rightarrow> VariableARQ \<times> nat" where
  "send_next_blocks_body st sent =
     (let seq = m_next_tx_sequence st;
          r = (case find_block st seq of
                 None \<Rightarrow> (st, sent)
               | Some i \<Rightarrow>
                   if \<not> acknowledged (m_tx_blocks st ! i) then (send_block st seq, sent + 1)
                   else (st, sent));
          st1 = fst r;
          st2 = st1\<lparr>m_next_tx_sequence := m_next_tx_sequence st1 + 1\<rparr>;
          st3 = (if unat (m_next_tx_sequence st2) \<ge> 256 then st2\<lparr>m_next_tx_sequence := 0\<rparr>
                 else st2)
      in (st3, snd r))"

partial_function (option) send_next_blocks_loop ::
  "VariableARQ \<Rightarrow> nat \<Rightarrow> (VariableARQ \<times> nat) option" where
  "send_next_blocks_loop st sent =
     (if sent < unat (m_window_size st) \<and> unat (m_next_tx_sequence st) < length (m_tx_blocks st)
      then send_next_blocks_loop (fst (send_next_blocks_body st sent))
                                 (snd (send_next_blocks_body st sent))
      else Some (st, sent))"

text \<open>
  The handlers that raise a further event take the function that processes it as the
  parameter \<open>pe\<close>.
\<close>

definition send_next_blocks ::
  "(VariableARQ \<Rightarrow> ARQEvent \<Rightarrow> VariableARQ option) \<Rightarrow> VariableARQ \<Rightarrow> VariableARQ option" where
  "send_next_blocks pe st =
     (case send_next_blocks_loop st 0 of
        None \<Rightarrow> None
      | Some (st1, sent) \<Rightarrow> if sent > 0 then pe st1 FRAME_SENT else Some st1)"

definition handle_idle ::
  "(VariableARQ \<Rightarrow> ARQEvent \<Rightarrow> VariableARQ option) \<Rightarrow> VariableARQ \<Rightarrow> ARQEvent
     \<Rightarrow> VariableARQ option" where
  "handle_idle pe st event =
     (case event of
        START_TX \<Rightarrow>
          if m_tx_blocks st \<noteq> [] then send_next_blocks pe (arq_transition_to st TX_DATA)
          else Some st
      | START_RX \<Rightarrow> Some (arq_transition_to st RX_DATA)
      | FRAME_RECEIVED \<Rightarrow> Some st
      | _ \<Rightarrow> Some st)"

definition handle_tx_data ::
  "(VariableARQ \<Rightarrow> ARQEvent \<Rightarrow> VariableARQ option) \<Rightarrow> VariableARQ \<Rightarrow> ARQEvent
     \<Rightarrow> VariableARQ option" where
  "handle_tx_data pe st event =
     (case event of
        FRAME_SENT \<Rightarrow>
          if all_blocks_acked st then pe st TRANSFER_COMPLETE
          else
            let st1 = arq_transition_to st WAIT_ACK
            in Some (st1\<lparr>m_wait_start_time := m_last_tx_time st1\<rparr>)
      | TRANSFER_COMPLETE \<Rightarrow> Some (arq_transition_to st ARQ_IDLE)
      | ERROR_EVENT \<Rightarrow> Some (arq_transition_to st ARQ_ERROR)
      | _ \<Rightarrow> Some st)"

definition handle_wait_ack ::
  "(VariableARQ \<Rightarrow> ARQEvent \<Rightarrow> VariableARQ option) \<Rightarrow> VariableARQ \<Rightarrow> ARQEvent
     \<Rightarrow> VariableARQ option" where
  "handle_wait_ack pe st event =
     (case event of
        ACK_RECEIVED \<Rightarrow>
          if all_blocks_acked st then Some (arq_transition_to st ARQ_IDLE)
          else if m_retransmit_queue st \<noteq> [] then Some (arq_transition_to st RETRANSMIT)
          else send_next_blocks pe (arq_transition_to st TX_DATA)
      | NAK_RECEIVED \<Rightarrow>
          let st1 = st\<lparr>m_stats := (m_stats st)\<lparr>naks_received := naks_received (m_stats st) + 1\<rparr>\<rparr>
          in Some (arq_transition_to st1 RETRANSMIT)
      | TIMEOUT \<Rightarrow>
          let st1 = st\<lparr>m_stats := (m_stats st)\<lparr>timeouts := timeouts (m_stats st) + 1\<rparr>\<rparr>
          in Some (arq_transition_to st1 RETRANSMIT)
      | ERROR_EVENT \<Rightarrow> Some (arq_transition_to st ARQ_ERROR)
      | _ \<Rightarrow> Some st)"

text \<open>\<^verbatim>\<open>reassemble_data\<close> has an empty body.\<close>

definition handle_rx_data :: "VariableARQ \<Rightarrow> ARQEvent \<Rightarrow> VariableARQ" where
  "handle_rx_data st event =
     (case event of
        FRAME_RECEIVED \<Rightarrow> arq_transition_to st SEND_ACK
      | TRANSFER_COMPLETE \<Rightarrow> arq_transition_to st ARQ_IDLE
      | ERROR_EVENT \<Rightarrow> arq_transition_to st ARQ_ERROR
      | _ \<Rightarrow> st)"

definition handle_send_ack :: "VariableARQ \<Rightarrow> ARQEvent \<Rightarrow> VariableARQ" where
  "handle_send_ack st event =
     (case event of FRAME_SENT \<Rightarrow> arq_transition_to st RX_DATA | _ \<Rightarrow> st)"

text \<open>
  The loop of \<^verbatim>\<open>handle_retransmit\<close> over the queue taken at its start (the loop body
  never pushes). The flag of the result tells whether the loop ended by the
  \<^verbatim>\<open>return\<close> after the transition to ERROR.
\<close>

fun retransmit_loop :: "VariableARQ \<Rightarrow> u8 list \<Rightarrow> bool \<times> VariableARQ" where
  "retransmit_loop st [] = (False, st)"
| "retransmit_loop st (seq # queue) =
     (let st1 = st\<lparr>m_retransmit_queue := queue\<rparr>
      in case find_block st1 seq of
           None \<Rightarrow> retransmit_loop st1 queue
         | Some i \<Rightarrow>
             if \<not> acknowledged (m_tx_blocks st1 ! i) then
               if retransmit_count (m_tx_blocks st1 ! i) \<ge> m_max_retransmits st1
               then (True, arq_transition_to
                             (report_error st1 ''Max retransmissions exceeded'') ARQ_ERROR)
               else
                 let st2 = send_block st1 seq;
                     b = m_tx_blocks st2 ! i;
                     st3 = st2\<lparr>m_tx_blocks :=
                             (m_tx_blocks st2)[i := b\<lparr>retransmit_count := retransmit_count b + 1\<rparr>]\<rparr>;
                     st4 = st3\<lparr>m_stats := (m_stats st3)
                             \<lparr>blocks_retransmitted := blocks_retransmitted (m_stats st3) + 1\<rparr>\<rparr>
                 in retransmit_loop st4 queue
             else retransmit_loop st1 queue)"

definition handle_retransmit :: "VariableARQ \<Rightarrow> ARQEvent \<Rightarrow> VariableARQ" where
  "handle_retransmit st event =
     (case event of
        DATA_READY \<Rightarrow>
          let r = retransmit_loop st (m_retransmit_queue st)
          in if fst r then snd r
             else
               let st1 = arq_transition_to (snd r) WAIT_ACK
               in st1\<lparr>m_wait_start_time := m_last_tx_time st1\<rparr>
      | _ \<Rightarrow> st)"

text \<open>
  \<^verbatim>\<open>VariableARQ::process_event\<close>. The function calls itself through its handlers:
  START_TX or ACK_RECEIVED may raise FRAME_SENT, which may raise TRANSFER_COMPLETE, which
  raises nothing, so the calls nest at most three deep. The first argument bounds the
  nesting; \<open>arq_process_event\<close> gives the bound 3.
\<close>

primrec process_event_depth ::
  "nat \<Rightarrow> VariableARQ \<Rightarrow> ARQEvent \<Rightarrow> VariableARQ option" where
  "process_event_depth 0 = (\<lambda>st event. None)"
| "process_event_depth (Suc n) =
     (\<lambda>st event.
        case m_state st of
          ARQ_IDLE \<Rightarrow> handle_idle (process_event_depth n) st event
        | TX_DATA \<Rightarrow> handle_tx_data (process_event_depth n) st event
        | WAIT_ACK \<Rightarrow> handle_wait_ack (process_event_depth n) st event
        | RX_DATA \<Rightarrow> Some (handle_rx_data st event)
        | SEND_ACK \<Rightarrow> Some (handle_send_ack st event)
        | RETRANSMIT \<Rightarrow> Some (handle_retransmit st event)
        | ARQ_ERROR \<Rightarrow> if event = RESET then Some (reset st) else Some st)"

definition arq_process_event :: "VariableARQ \<Rightarrow> ARQEvent \<Rightarrow> VariableARQ option" where
  "arq_process_event = process_event_depth 3"

text \<open>
  \<^verbatim>\<open>VariableARQ::start_transmission\<close> on the caller's bytes; the result is the returned
  flag and the object, or \<open>None\<close> if the call does not return.
\<close>

definition start_transmission :: "VariableARQ \<Rightarrow> u8 list \<Rightarrow> (bool \<times> VariableARQ) option" where
  "start_transmission st bytes =
     (if m_state st \<noteq> ARQ_IDLE
      then Some (False, report_error st ''Cannot start transmission: not in IDLE state'')
      else if \<not> m_tx_callback st
      then Some (False, report_error st ''No TX callback configured'')
      else
        case arq_process_event (create_blocks st bytes) START_TX of
          None \<Rightarrow> None
        | Some st1 \<Rightarrow> Some (True, st1))"

section \<open>LQA database: src/src/lqa_database.cpp\<close>

text \<open>
  The database computes on floats. Its arithmetic (\<^verbatim>\<open>+\<close>, \<^verbatim>\<open>-\<close>, \<^verbatim>\<open>*\<close>, \<^verbatim>\<open>/\<close> and the
  conversion of a \<^verbatim>\<open>uint32_t\<close> to \<^verbatim>\<open>float\<close>, each with its rounding) is a parameter of
  the model, a record of operations on \<open>cfloat\<close>; comparisons and \<^verbatim>\<open>std::min\<close>,
  \<^verbatim>\<open>std::max\<close> are those of the section on floating-point values. What is proved
  for every such record holds for the arithmetic of the machine.
\<close>

record float_ops =
  fadd :: "cfloat \<Rightarrow> cfloat \<Rightarrow> cfloat"
  fsub :: "cfloat \<Rightarrow> cfloat \<Rightarrow> cfloat"
  fmul :: "cfloat \<Rightarrow> cfloat \<Rightarrow> cfloat"
  fdiv :: "cfloat \<Rightarrow> cfloat \<Rightarrow> cfloat"
  float_of_u32 :: "u32 \<Rightarrow> cfloat"

text \<open>
  \<^verbatim>\<open>struct LQAEntry\<close> and \<^verbatim>\<open>struct LQAConfig\<close>. The two \<^verbatim>\<open>int\<close> counters are 32-bit
  words read as signed; a station name is a \<^verbatim>\<open>std::string\<close>.
\<close>

record LQAEntry =
  frequency_hz :: u32
  remote_station :: "cchar list"
  snr_db :: cfloat
  ber :: cfloat
  sinad_db :: cfloat
  fec_errors :: u32
  total_words :: u32
  multipath_score :: cfloat
  noise_floor_dbm :: cfloat
  last_sounding_ms :: u32
  last_contact_ms :: u32
  score :: cfloat
  sample_count :: u32

definition LQAEntry_new :: LQAEntry where
  "LQAEntry_new =
     \<lparr>frequency_hz = 0, remote_station = [], snr_db = Fin 0, ber = Fin 0, sinad_db = Fin 0,
      fec_errors = 0, total_words = 0, multipath_score = Fin 0, noise_floor_dbm = Fin (- 120),
      last_sounding_ms = 0, last_contact_ms = 0, score = Fin 0, sample_count = 0\<rparr>"

record LQAConfig =
  snr_weight :: cfloat
  success_weight :: cfloat
  recency_weight :: cfloat
  max_age_ms :: u32
  history_depth :: u32
  time_decay_factor :: cfloat
  good_snr_db :: cfloat
  poor_snr_db :: cfloat
  good_ber :: cfloat
  poor_ber :: cfloat

text \<open>
  \<^verbatim>\<open>class LQADatabase\<close>: the configuration and the \<^verbatim>\<open>std::map\<close> from (frequency,
  station) to entry. A newly constructed database has no entries; its configuration is
  the caller's here, since the default weights are decimal fractions that only the rounding
  of the machine determines.
\<close>

record LQADatabase =
  config :: LQAConfig
  entries :: "u32 \<times> cchar list \<rightharpoonup> LQAEntry"

definition LQADatabase_new :: "LQAConfig \<Rightarrow> LQADatabase" where
  "LQADatabase_new cfg = \<lparr>config = cfg, entries = Map.empty\<rparr>"

definition set_config :: "LQADatabase \<Rightarrow> LQAConfig \<Rightarrow> LQADatabase" where
  "set_config db cfg = db\<lparr>config := cfg\<rparr>"

definition time_weighted_average ::
  "float_ops \<Rightarrow> LQADatabase \<Rightarrow> cfloat \<Rightarrow> cfloat \<Rightarrow> u32 \<Rightarrow> cfloat" where
  "time_weighted_average F db old_value new_value old_samples =
     (let decay = time_decay_factor (config db);
          weighted_old = fmul F (fmul F old_value decay) (float_of_u32 F old_samples);
          total_weight = fadd F (fmul F (float_of_u32 F old_samples) decay) (Fin 1)
      in fdiv F (fadd F weighted_old new_value) total_weight)"

text \<open>
  \<^verbatim>\<open>LQADatabase::compute_score\<close>. The value of \<^verbatim>\<open>get_current_time_ms()\<close>, read from the
  system clock, is the parameter \<open>clock\<close>.
\<close>

definition compute_score :: "float_ops \<Rightarrow> LQADatabase \<Rightarrow> u32 \<Rightarrow> LQAEntry \<Rightarrow> cfloat" where
  "compute_score F db clock entry =
     (let score0 = Fin 0;
          snr_component = std_min (Fin 31) (std_max (Fin 0) (snr_db entry));
          score1 = fadd F score0 (fmul F snr_component (snr_weight (config db)));
          success_rate =
            (if 0 <s total_words entry
             then fmul F (fsub F (Fin 1) (std_min (Fin 1) (ber entry))) (Fin 31)
             else Fin 0);
          score2 = fadd F score1 (fmul F success_rate (success_weight (config db)));
          now = clock;
          last_activity = max (last_contact_ms entry) (last_sounding_ms entry);
          score3 =
            (if last_activity > 0 then
               let age_ms = now - last_activity;
                   age_factor = fsub F (Fin 1)
                     (fdiv F (float_of_u32 F age_ms) (float_of_u32 F (max_age_ms (config db))));
                   age_factor1 = std_max (Fin 0) (std_min (Fin 1) age_factor);
                   recency = fmul F age_factor1 (Fin 31)
               in fadd F score2 (fmul F recency (recency_weight (config db)))
             else score2)
      in std_min (Fin 31) (std_max (Fin 0) score3))"

text \<open>
  \<^verbatim>\<open>LQADatabase::update_entry\<close>. The clock is read once for a zero timestamp
  (\<open>clock1\<close>; \<open>tstamp\<close> is the parameter \<^verbatim>\<open>timestamp_ms\<close>) and once inside \<^verbatim>\<open>compute_score\<close> (\<open>clock2\<close>).
\<close>

definition update_entry ::
  "float_ops \<Rightarrow> LQADatabase \<Rightarrow> u32 \<Rightarrow> cchar list \<Rightarrow> cfloat \<Rightarrow> cfloat \<Rightarrow> u32 \<Rightarrow> u32 \<Rightarrow> u32
     \<Rightarrow> u32 \<Rightarrow> u32 \<Rightarrow> LQADatabase" where
  "update_entry F db freq station snr b fec words tstamp clock1 clock2 =
     (let key = (freq, station);
          now = (if tstamp = 0 then clock1 else tstamp)
      in case entries db key of
           Some entry \<Rightarrow>
             let old_samples = sample_count entry;
                 e1 = entry\<lparr>snr_db := time_weighted_average F db (snr_db entry) snr old_samples\<rparr>;
                 e2 = e1\<lparr>ber := time_weighted_average F db (ber e1) b old_samples\<rparr>;
                 e3 = e2\<lparr>fec_errors := fec_errors e2 + fec\<rparr>;
                 e4 = e3\<lparr>total_words := total_words e3 + words\<rparr>;
                 e5 = e4\<lparr>sample_count := sample_count e4 + 1\<rparr>;
                 e6 = (if station \<noteq> [] then e5\<lparr>last_contact_ms := now\<rparr>
                       else e5\<lparr>last_sounding_ms := now\<rparr>);
                 e7 = e6\<lparr>score := compute_score F db clock2 e6\<rparr>
             in db\<lparr>entries := (entries db)(key \<mapsto> e7)\<rparr>
         | None \<Rightarrow>
             let e1 = LQAEntry_new\<lparr>frequency_hz := freq, remote_station := station, snr_db := snr,
                        ber := b, fec_errors := fec, total_words := words, sample_count := 1\<rparr>;
                 e2 = (if station \<noteq> [] then e1\<lparr>last_contact_ms := now\<rparr>
                       else e1\<lparr>last_sounding_ms := now\<rparr>);
                 e3 = e2\<lparr>score := compute_score F db clock2 e2\<rparr>
             in db\<lparr>entries := (entries db)(key \<mapsto> e3)\<rparr>)"

definition update_entry_extended ::
  "float_ops \<Rightarrow> LQADatabase \<Rightarrow> u32 \<Rightarrow> cchar list \<Rightarrow> cfloat \<Rightarrow> cfloat \<Rightarrow> cfloat \<Rightarrow> cfloat
     \<Rightarrow> cfloat \<Rightarrow> u32 \<Rightarrow> u32 \<Rightarrow> u32 \<Rightarrow> u32 \<Rightarrow> u32 \<Rightarrow> LQADatabase" where
  "update_entry_extended F db freq station snr b sinad multipath noise_floor fec words
       tstamp clock1 clock2 =
     (let key = (freq, station);
          now = (if tstamp = 0 then clock1 else tstamp)
      in case entries db key of
           Some entry \<Rightarrow>
             let old_samples = sample_count entry;
                 e1 = entry\<lparr>snr_db := time_weighted_average F db (snr_db entry) snr old_samples\<rparr>;
                 e2 = e1\<lparr>ber := time_weighted_average F db (ber e1) b old_samples\<rparr>;
                 e3 = e2\<lparr>sinad_db := time_weighted_average F db (sinad_db e2) sinad old_samples\<rparr>;
                 e4 = e3\<lparr>multipath_score :=
                          time_weighted_average F db (multipath_score e3) multipath old_samples\<rparr>;
                 e5 = e4\<lparr>noise_floor_dbm :=
                          time_weighted_average F db (noise_floor_dbm e4) noise_floor old_samples\<rparr>;
                 e6 = e5\<lparr>fec_errors := fec_errors e5 + fec\<rparr>;
                 e7 = e6\<lparr>total_words := total_words e6 + words\<rparr>;
                 e8 = e7\<lparr>sample_count := sample_count e7 + 1\<rparr>;
                 e9 = (if station \<noteq> [] then e8\<lparr>last_contact_ms := now\<rparr>
                       else e8\<lparr>last_sounding_ms := now\<rparr>);
                 e10 = e9\<lparr>score := compute_score F db clock2 e9\<rparr>
             in db\<lparr>entries := (entries db)(key \<mapsto> e10)\<rparr>
         | None \<Rightarrow>
             let e1 = LQAEntry_new\<lparr>frequency_hz := freq, remote_station := station, snr_db := snr,
                        ber := b, sinad_db := sinad, multipath_score := multipath,
                        noise_floor_dbm := noise_floor, fec_errors := fec, total_words := words,
                        sample_count := 1\<rparr>;
                 e2 = (if station \<noteq> [] then e1\<lparr>last_contact_ms := now\<rparr>
                       else e1\<lparr>last_sounding_ms := now\<rparr>);
                 e3 = e2\<lparr>score := compute_score F db clock2 e2\<rparr>
             in db\<lparr>entries := (entries db)(key \<mapsto> e3)\<rparr>)"

text \<open>
  \<^verbatim>\<open>LQADatabase::load_from_file\<close> reads the objects of the database from the bytes of a
  file with \<^verbatim>\<open>reinterpret_cast\<close>. A \<^verbatim>\<open>float\<close> is read as the IEEE 754 binary32 number of
  its four bytes, the least significant byte first, as on the little-endian machines that
  the file format is specified for; the sign of a zero is not kept in \<open>cfloat\<close>.
\<close>

definition float_of_bits :: "u32 \<Rightarrow> cfloat" where
  "float_of_bits w =
     (let sign = bit w 31;
          e = unat (drop_bit 23 w AND 0xFF);
          m = unat (w AND 0x7FFFFF)
      in if e = 255 then (if m = 0 then (if sign then NInf else PInf) else NaN)
         else
           let v = (if e = 0 then real m / 2 ^ 149
                    else if 150 \<le> e then real (2 ^ 23 + m) * 2 ^ (e - 150)
                    else real (2 ^ 23 + m) / 2 ^ (150 - e))
           in Fin (if sign then - v else v))"

text \<open>
  A \<^verbatim>\<open>std::ifstream\<close> opened in binary mode: the bytes not yet read, and whether a read
  has failed. \<^verbatim>\<open>read(buf, n)\<close> does nothing on a stream that has failed; otherwise it
  fills \<open>buf\<close> with the next \<open>n\<close> bytes, or, when fewer are left, overwrites the start of
  \<open>buf\<close> with them, leaves the rest of \<open>buf\<close> as it was and fails.
\<close>

record ifstream =
  content :: "u8 list"
  failbit :: bool

definition stream_read :: "ifstream \<Rightarrow> u8 list \<Rightarrow> u8 list \<times> ifstream" where
  "stream_read file buf =
     (if failbit file then (buf, file)
      else if length buf \<le> length (content file)
        then (take (length buf) (content file),
              file\<lparr>content := drop (length buf) (content file)\<rparr>)
      else (content file @ drop (length (content file)) buf,
            \<lparr>content = [], failbit = True\<rparr>))"

text \<open>
  Reading a four-byte object whose value before the read is \<open>old\<close>. The locals
  \<^verbatim>\<open>version\<close>, \<^verbatim>\<open>count\<close> and \<^verbatim>\<open>name_len\<close> are not initialised and are used right after
  their read: when the read does not fill them the behaviour of the program is undefined,
  which is the result \<open>None\<close> here and in the functions below.
\<close>

definition bytes_of_u32 :: "u32 \<Rightarrow> u8 list" where
  "bytes_of_u32 w = [ucast w, ucast (drop_bit 8 w), ucast (drop_bit 16 w), ucast (drop_bit 24 w)]"

definition u32_of_bytes :: "u8 list \<Rightarrow> u32" where
  "u32_of_bytes bs =
     ucast (bs ! 0) OR push_bit 8 (ucast (bs ! 1)) OR push_bit 16 (ucast (bs ! 2))
       OR push_bit 24 (ucast (bs ! 3))"

definition read_u32 :: "ifstream \<Rightarrow> u32 \<Rightarrow> u32 \<times> ifstream" where
  "read_u32 file old =
     (case stream_read file (bytes_of_u32 old) of (bs, file1) \<Rightarrow> (u32_of_bytes bs, file1))"

definition read_u32_uninit :: "ifstream \<Rightarrow> (u32 \<times> ifstream) option" where
  "read_u32_uninit file =
     (if failbit file \<or> length (content file) < 4 then None else Some (read_u32 file 0))"

text \<open>
  \<^verbatim>\<open>file.read(reinterpret_cast<char*>(&config_), sizeof(config_))\<close>: the ten members of
  \<^verbatim>\<open>LQAConfig\<close> are four bytes each, 40 bytes with no padding. The entry count is read
  next into an uninitialised local, so that a shorter read ends in undefined behaviour.
\<close>

definition read_config :: "ifstream \<Rightarrow> (LQAConfig \<times> ifstream) option" where
  "read_config file =
     (if failbit file \<or> length (content file) < 40 then None
      else
        let w = (\<lambda>i. u32_of_bytes (take 4 (drop (4 * i) (content file))))
        in Some (\<lparr>snr_weight = float_of_bits (w 0), success_weight = float_of_bits (w 1),
                   recency_weight = float_of_bits (w 2), max_age_ms = w 3, history_depth = w 4,
                   time_decay_factor = float_of_bits (w 5), good_snr_db = float_of_bits (w 6),
                   poor_snr_db = float_of_bits (w 7), good_ber = float_of_bits (w 8),
                   poor_ber = float_of_bits (w 9)\<rparr>,
                 file\<lparr>content := drop 40 (content file)\<rparr>))"

text \<open>
  One iteration of the loop up to the store: \<^verbatim>\<open>LQAEntry entry;\<close> holds the constructor's
  values (all zero but the noise floor \<^verbatim>\<open>-120.0f\<close>, of bits \<^verbatim>\<open>0xC2F00000\<close>), the station
  name is resized to \<^verbatim>\<open>name_len\<close> zero characters, and each member is read in turn. No
  member is changed after its read: the score is the one of the file.
\<close>

definition read_entry :: "ifstream \<Rightarrow> (LQAEntry \<times> ifstream) option" where
  "read_entry file0 =
     (case read_u32 file0 0 of (freq, file1) \<Rightarrow>
      case read_u32_uninit file1 of
        None \<Rightarrow> None
      | Some (name_len, file2) \<Rightarrow>
      case stream_read file2 (replicate (unat name_len) 0) of (name, file3) \<Rightarrow>
      case read_u32 file3 0 of (snr, file4) \<Rightarrow>
      case read_u32 file4 0 of (b, file5) \<Rightarrow>
      case read_u32 file5 0 of (sinad, file6) \<Rightarrow>
      case read_u32 file6 0 of (fec, file7) \<Rightarrow>
      case read_u32 file7 0 of (words, file8) \<Rightarrow>
      case read_u32 file8 0 of (multipath, file9) \<Rightarrow>
      case read_u32 file9 0xC2F00000 of (noise_floor, file10) \<Rightarrow>
      case read_u32 file10 0 of (sounding, file11) \<Rightarrow>
      case read_u32 file11 0 of (contact, file12) \<Rightarrow>
      case read_u32 file12 0 of (sc, file13) \<Rightarrow>
      case read_u32 file13 0 of (samples, file14) \<Rightarrow>
        Some (\<lparr>frequency_hz = freq, remote_station = name, snr_db = float_of_bits snr,
                ber = float_of_bits b, sinad_db = float_of_bits sinad, fec_errors = fec,
                total_words = words, multipath_score = float_of_bits multipath,
                noise_floor_dbm = float_of_bits noise_floor, last_sounding_ms = sounding,
                last_contact_ms = contact, score = float_of_bits sc, sample_count = samples\<rparr>,
              file14))"

fun load_entries ::
  "nat \<Rightarrow> ifstream \<Rightarrow> (u32 \<times> cchar list \<rightharpoonup> LQAEntry) \<Rightarrow> (u32 \<times> cchar list \<rightharpoonup> LQAEntry) option" where
  "load_entries 0 file es = Some es"
| "load_entries (Suc n) file es =
     (case read_entry file of
        None \<Rightarrow> None
      | Some (entry, file1) \<Rightarrow>
          load_entries n file1 (es((frequency_hz entry, remote_station entry) \<mapsto> entry)))"

text \<open>
  \<^verbatim>\<open>std::string(magic)\<close> is the characters of \<^verbatim>\<open>magic\<close> before the first zero; with no
  zero among the bytes read, it reads what no read has filled. The file is \<open>None\<close> when it
  cannot be opened.
\<close>

definition PCALE_LQA :: "cchar list" where
  "PCALE_LQA = [0x50, 0x43, 0x41, 0x4C, 0x45, 0x5F, 0x4C, 0x51, 0x41]"

definition load_from_file :: "LQADatabase \<Rightarrow> u8 list option \<Rightarrow> (bool \<times> LQADatabase) option" where
  "load_from_file db file_content =
     (case file_content of
        None \<Rightarrow> Some (False, db)
      | Some bytes \<Rightarrow>
          let magic = take 10 bytes;
              file1 = \<lparr>content = drop 10 bytes, failbit = (length bytes < 10)\<rparr>
          in
          if 0 \<notin> set magic then None
          else if takeWhile (\<lambda>c. c \<noteq> 0) magic \<noteq> PCALE_LQA then Some (False, db)
          else
            case read_u32_uninit file1 of
              None \<Rightarrow> None
            | Some (version, file2) \<Rightarrow>
            if version \<noteq> 1 then Some (False, db)
            else
              case read_config file2 of
                None \<Rightarrow> None
              | Some (cfg, file3) \<Rightarrow>
              case read_u32_uninit file3 of
                None \<Rightarrow> None
              | Some (count, file4) \<Rightarrow>
              case load_entries (unat count) file4 Map.empty of
                None \<Rightarrow> None
              | Some es \<Rightarrow> Some (True, \<lparr>config = cfg, entries = es\<rparr>))"

text \<open>A score that is a number of the interval from 0 to 31.\<close>

fun score_in_range :: "cfloat \<Rightarrow> bool" where
  "score_in_range (Fin x) = (0 \<le> x \<and> x \<le> 31)"
| "score_in_range x = False"

text \<open>
  The segmentation that \<^verbatim>\<open>start_transmission\<close> is specified to produce, in the words of
  the specification: block \<open>j\<close> has sequence number \<open>j\<close> modulo 256, starts at byte
  \<open>1023 * j\<close> of the input, holds the next 1023 bytes of the input or what is left of it,
  and is not acknowledged.
\<close>

definition segmented :: "u8 list \<Rightarrow> DataBlock list \<Rightarrow> bool" where
  "segmented bytes blocks \<longleftrightarrow>
     length blocks = (length bytes + 1022) div 1023 \<and>
     (\<forall>j < length blocks.
        sequence (blocks ! j) = of_nat j \<and>
        offset (blocks ! j) = of_nat (1023 * j) \<and>
        blk_length (blocks ! j) = of_nat (min 1023 (length bytes - 1023 * j)) \<and>
        blk_data (blocks ! j) = take (min 1023 (length bytes - 1023 * j)) (drop (1023 * j) bytes) \<and>
        \<not> acknowledged (blocks ! j))"

chapter \<open>Properties\<close>

section \<open>Golay\<close>

lemma encode_table_at_12bit: "encode_table_at i < 0x1000"
proof (cases "i < length GOLAY_ENCODE_TABLE")
  case True
  have "\<forall>x \<in> set GOLAY_ENCODE_TABLE. x < 0x1000"
    by (simp add: GOLAY_ENCODE_TABLE_def)
  with True show ?thesis
    by (simp add: encode_table_at_def)
next
  case False
  then show ?thesis by (simp add: encode_table_at_def)
qed

lemma bit_lt_4096: "(x :: u16) < 0x1000 \<Longrightarrow> bit x n \<Longrightarrow> n < 12"
proof (rule ccontr)
  assume a: "x < 0x1000" and b: "bit x n" and n: "\<not> n < 12"
  have "x < 2 ^ 12" using a by simp
  then have "\<not> bit x n" using n
    by (metis bit_take_bit_iff less_mask_eq take_bit_eq_mask)
  with b show False by simp
qed

lemma mask12_u32: "(0xFFF :: u32) = mask 12"
  by (simp add: mask_eq_exp_minus_1)

lemma mask12_u16: "(0xFFF :: u16) = mask 12"
  by (simp add: mask_eq_exp_minus_1)

lemma encode_info_part:
  assumes "info < 0x1000"
  shows "(ucast (drop_bit 12 (encode info) AND 0xFFF) :: u16) = info"
proof (rule bit_word_eqI)
  fix n assume "n < LENGTH(16)"
  then show "bit (ucast (drop_bit 12 (encode info) AND 0xFFF) :: u16) n = bit info n"
    using bit_lt_4096[OF assms, of n] bit_lt_4096[OF encode_table_at_12bit, of _ "12 + n"]
    unfolding mask12_u32 encode_def Let_def by (auto simp add: bit_simps)
qed

lemma encode_parity_part:
  "(ucast (encode info AND 0xFFF) :: u16) = encode_table_at (unat (info AND 0xFFF))"
proof (rule bit_word_eqI)
  fix n assume "n < LENGTH(16)"
  then show "bit (ucast (encode info AND 0xFFF) :: u16) n
             = bit (encode_table_at (unat (info AND 0xFFF))) n"
    using bit_lt_4096[OF encode_table_at_12bit, of _ n]
    unfolding mask12_u32 encode_def Let_def by (auto simp add: bit_simps)
qed

lemma and_fff_id: "(info::u16) < 0x1000 \<Longrightarrow> info AND 0xFFF = info"
  unfolding mask12_u16 by (simp add: less_mask_eq)

lemma compute_syndrome_encode:
  assumes "info < 0x1000"
  shows "compute_syndrome (encode info) = 0"
  unfolding compute_syndrome_def Let_def
  by (simp only: encode_info_part[OF assms] encode_parity_part and_fff_id[OF assms]) simp

text \<open>
  C6. For every 12-bit information word \<open>info\<close>, \<open>decode\<close> applied to \<open>encode info\<close>
  returns an error count of 0 and writes \<open>info\<close> to the output, whatever the state of the
  static syndrome table.
\<close>

theorem golay_decode_encode:
  assumes "info < 0x1000"
  shows "fst (decode st (encode info)) = 0 \<and> fst (snd (decode st (encode info))) = info"
proof -
  have s: "compute_syndrome (encode info) = 0"
    by (rule compute_syndrome_encode[OF assms])
  show ?thesis
    unfolding decode_def Let_def s
    by (simp only: encode_info_part[OF assms]) simp
qed

theorem golay_decode_encode_witness:
  "(0x123 :: u16) < 0x1000 \<and> fst (decode golay_static_initial (encode 0x123)) = 0
     \<and> fst (snd (decode golay_static_initial (encode 0x123))) = 0x123"
  using golay_decode_encode[of "0x123" golay_static_initial] by simp

lemma encode_0x100: "encode 0x100 = 0x100000"
  by (simp add: encode_def encode_table_at_def GOLAY_ENCODE_TABLE_def)

lemma compute_syndrome_0x101000: "compute_syndrome 0x101000 = 0"
  by (simp add: compute_syndrome_def encode_table_at_def GOLAY_ENCODE_TABLE_def)

lemma record_pattern_keep:
  "t ! i \<noteq> 0xFFFFFFFF \<Longrightarrow> record_pattern t p ! i = t ! i"
  by (cases "unat (compute_syndrome p) = i") (auto simp add: record_pattern_def Let_def)

lemma foldl_record_pattern_keep:
  "t ! i \<noteq> 0xFFFFFFFF \<Longrightarrow> foldl record_pattern t ps ! i = t ! i"
  by (induction ps arbitrary: t) (simp_all add: record_pattern_keep)

lemma patterns1_first: "patterns1 = 1 # map (\<lambda>bit. push_bit bit 1) [1..<24]"
  by (simp add: patterns1_def upt_rec[of 0])

lemma compute_syndrome_1: "compute_syndrome 1 = 1"
  by (simp add: compute_syndrome_def encode_table_at_def GOLAY_ENCODE_TABLE_def)

lemma init_table_1:
  assumes "length (syndrome_table st) = 4096"
  shows "syndrome_table (snd (init_syndrome_table st)) ! 1 = 1"
proof -
  let ?t1 = "(replicate 4096 (0xFFFFFFFF :: u32))[0 := 0]"
  have a: "record_pattern ?t1 1 ! 1 = 1"
    by (simp add: record_pattern_def compute_syndrome_1)
  have b: "foldl record_pattern ?t1 patterns1 ! 1 = 1"
    unfolding patterns1_first using a by (simp add: foldl_record_pattern_keep)
  show ?thesis
    using assms b by (simp add: init_syndrome_table_def Let_def foldl_record_pattern_keep)
qed

lemma compute_syndrome_0x080001: "compute_syndrome 0x080001 = 1"
  by (simp add: compute_syndrome_def encode_table_at_def GOLAY_ENCODE_TABLE_def)

lemma encode_0: "encode 0 = 0"
  by (simp add: encode_def encode_table_at_def GOLAY_ENCODE_TABLE_def)

text \<open>
  C1, evaluated at two failing inputs, each a codeword of \<open>encode\<close> with an error pattern
  of weight at most 3 whose syndrome has an entry in the syndrome table.

  The codeword of the information word 0x100 is 0x100000 (the table holds 0 at index 0x100).
  Flipping its bit 12, an error pattern of weight 1, gives 0x101000, whose syndrome is 0
  because the table holds 0 at index 0x101 as well: \<open>decode\<close> reports 0 errors and the
  information word 0x101, where C1 asks for 1 error and the information word 0x100.

  The codeword of the information word 0 is 0. The error pattern 0x080001 (bits 0 and 19,
  weight 2) has syndrome 1, whose table entry is the pattern 0x000001 recorded first:
  \<open>decode\<close>, started on the static state of program start, reports 1 error and the
  information word 0x080, where C1 asks for 2 errors and the information word 0.
\<close>

theorem golay_info_bit_error_not_corrected:
  "encode 0x100 XOR 0x001000 = 0x101000 \<and>
   fst (decode st 0x101000) = 0 \<and> fst (snd (decode st 0x101000)) = 0x101 \<and>
   encode 0 XOR 0x080001 = 0x080001 \<and>
   fst (decode golay_static_initial 0x080001) = 1 \<and>
   fst (snd (decode golay_static_initial 0x080001)) = 0x080"
  using init_table_1[of golay_static_initial]
  by (simp add: encode_0x100 encode_0 decode_def Let_def compute_syndrome_0x101000
        compute_syndrome_0x080001 golay_static_initial_def)

section \<open>Symbol detection\<close>

lemma flt_less_not_NaN: "flt_less a b \<Longrightarrow> a \<noteq> NaN \<and> b \<noteq> NaN"
  by (cases a; cases b) auto

lemma flt_less_le_trans: "\<not> flt_less a b \<Longrightarrow> flt_less a c \<Longrightarrow> flt_less b c \<or> b = NaN"
  by (cases a; cases b; cases c) auto

lemma flt_le_less_trans: "\<not> flt_less a b \<Longrightarrow> flt_less a c \<Longrightarrow> \<not> flt_less c b"
  by (cases a; cases b; cases c) auto

lemma flt_less_trans: "flt_less a b \<Longrightarrow> flt_less b c \<Longrightarrow> flt_less a c"
  by (cases a; cases b; cases c) auto

lemma flt_less_irrefl: "\<not> flt_less a a"
  by (cases a) auto

lemma new_peak_dominates:
  assumes "\<forall>k\<in>{a..<b}. \<not> flt_less x (m ! k)" "flt_less x (m ! b)"
  shows "\<forall>k\<in>{a..<Suc b}. \<not> flt_less (m ! b) (m ! k)"
proof
  fix k assume "k \<in> {a..<Suc b}"
  then consider "k \<in> {a..<b}" | "k = b" by force
  then show "\<not> flt_less (m ! b) (m ! k)"
  proof cases
    case 1
    then have "\<not> flt_less x (m ! k)" using assms(1) by blast
    then show ?thesis using assms(2) flt_le_less_trans by blast
  next
    case 2
    then show ?thesis by (simp add: flt_less_irrefl)
  qed
qed

lemma detect_fold:
  assumes "a \<le> b" "b \<le> FFT_SIZE"
  shows "(foldl (detect_step m) (pm0, pb0) [a..<b] = (pm0, pb0)
            \<and> (\<forall>k\<in>{a..<b}. \<not> flt_less pm0 (m ! k)))
       \<or> (\<exists>p\<in>{a..<b}. foldl (detect_step m) (pm0, pb0) [a..<b] = (m ! p, of_nat p)
            \<and> flt_less pm0 (m ! p)
            \<and> (\<forall>k\<in>{a..<b}. \<not> flt_less (m ! p) (m ! k))
            \<and> (\<forall>k\<in>{a..<p}. flt_less (m ! k) (m ! p) \<or> m ! k = NaN))"
  using assms
proof (induction b)
  case 0
  then show ?case by simp
next
  case (Suc b)
  show ?case
  proof (cases "a = Suc b")
    case True
    then show ?thesis by simp
  next
    case False
    with Suc.prems have ab: "a \<le> b" and bF: "b < FFT_SIZE" by simp_all
    let ?s = "foldl (detect_step m) (pm0, pb0) [a..<b]"
    have unf: "foldl (detect_step m) (pm0, pb0) [a..<Suc b] = detect_step m ?s b"
      using ab by simp
    from Suc.IH ab bF
    consider (none) "?s = (pm0, pb0)" "\<forall>k\<in>{a..<b}. \<not> flt_less pm0 (m ! k)"
      | (some) p where "p \<in> {a..<b}" "?s = (m ! p, of_nat p)" "flt_less pm0 (m ! p)"
          "\<forall>k\<in>{a..<b}. \<not> flt_less (m ! p) (m ! k)"
          "\<forall>k\<in>{a..<p}. flt_less (m ! k) (m ! p) \<or> m ! k = NaN"
      by auto
    then show ?thesis
    proof cases
      case none
      show ?thesis
      proof (cases "flt_less pm0 (m ! b)")
        case True
        have "\<forall>k\<in>{a..<b}. flt_less (m ! k) (m ! b) \<or> m ! k = NaN"
          using none(2) True flt_less_le_trans by blast
        moreover have "\<forall>k\<in>{a..<Suc b}. \<not> flt_less (m ! b) (m ! k)"
          by (rule new_peak_dominates[OF none(2) True])
        moreover have "detect_step m ?s b = (m ! b, of_nat b)"
          using True bF none(1) by (simp add: detect_step_def)
        ultimately show ?thesis
          unfolding unf using True ab by (intro disjI2 bexI[of _ b]) auto
      next
        case False
        have "detect_step m ?s b = (pm0, pb0)"
          using False none(1) by (simp add: detect_step_def)
        moreover have "\<forall>k\<in>{a..<Suc b}. \<not> flt_less pm0 (m ! k)"
          using none(2) False by (auto simp: less_Suc_eq)
        ultimately show ?thesis unfolding unf by simp
      qed
    next
      case some
      show ?thesis
      proof (cases "flt_less (m ! p) (m ! b)")
        case True
        have "\<forall>k\<in>{a..<b}. flt_less (m ! k) (m ! b) \<or> m ! k = NaN"
          using some(4) True flt_less_le_trans by blast
        moreover have "\<forall>k\<in>{a..<Suc b}. \<not> flt_less (m ! b) (m ! k)"
          by (rule new_peak_dominates[OF some(4) True])
        moreover have "detect_step m ?s b = (m ! b, of_nat b)"
          using True bF some(2) by (simp add: detect_step_def)
        moreover have "flt_less pm0 (m ! b)"
          using some(3) True flt_less_trans by blast
        ultimately show ?thesis
          unfolding unf using ab by (intro disjI2 bexI[of _ b]) auto
      next
        case False
        have "detect_step m ?s b = (m ! p, of_nat p)"
          using False some(2) by (simp add: detect_step_def)
        moreover have "\<forall>k\<in>{a..<Suc b}. \<not> flt_less (m ! p) (m ! k)"
          using some(4) False by (auto simp: less_Suc_eq)
        ultimately show ?thesis
          unfolding unf using some(1,3,5) by (intro disjI2 bexI[of _ p]) auto
      qed
    qed
  qed
qed


text \<open>
  C5 (amended). On a 64-bin magnitude vector \<open>detect_symbol\<close> scans bins 6 to 13. It returns
  the failure marker 0xFF exactly when none of these magnitudes is greater than the initial
  peak -1000000. Otherwise it returns \<open>peak_bin - 6\<close>, a value in 0..7, where \<open>peak_bin\<close> is
  a bin of 6..13 that no other bin of 6..13 exceeds and that exceeds every earlier bin
  (NaN apart): among equal maxima the lowest bin wins.
\<close>

theorem detect_symbol_first_maximum:
  assumes "length m = 64"
  shows "(detect_symbol m = 0xFF \<longleftrightarrow> (\<forall>k\<in>{6..<14}. \<not> flt_less (Fin (- 1000000)) (m ! k))) \<and>
         (detect_symbol m \<noteq> 0xFF \<longrightarrow>
            unat (detect_symbol m) < 8 \<and>
            flt_less (Fin (- 1000000)) (m ! (unat (detect_symbol m) + 6)) \<and>
            (\<forall>k\<in>{6..<14}. \<not> flt_less (m ! (unat (detect_symbol m) + 6)) (m ! k)) \<and>
            (\<forall>k\<in>{6..<unat (detect_symbol m) + 6}.
                 flt_less (m ! k) (m ! (unat (detect_symbol m) + 6)) \<or> m ! k = NaN))"
proof -
  let ?s = "foldl (detect_step m) (Fin (- 1000000), 0xFF) [6..<14]"
  have "(6::nat) \<le> 14" "14 \<le> FFT_SIZE" by (simp_all add: FFT_SIZE_def)
  from detect_fold[OF this, of m "Fin (- 1000000)" "0xFF"]
  consider (none) "?s = (Fin (- 1000000), 0xFF)"
             "\<forall>k\<in>{6..<14}. \<not> flt_less (Fin (- 1000000)) (m ! k)"
    | (some) p where "p \<in> {6..<14}" "?s = (m ! p, of_nat p)"
          "flt_less (Fin (- 1000000)) (m ! p)"
          "\<forall>k\<in>{6..<14}. \<not> flt_less (m ! p) (m ! k)"
          "\<forall>k\<in>{6..<p}. flt_less (m ! k) (m ! p) \<or> m ! k = NaN"
    by blast
  then show ?thesis
  proof cases
    case none
    then show ?thesis by (simp add: detect_symbol_def Let_def)
  next
    case some
    from some(1) have p: "6 \<le> p" "p < 14" by simp_all
    have pc: "p = 6 \<or> p = 7 \<or> p = 8 \<or> p = 9 \<or> p = 10 \<or> p = 11 \<or> p = 12 \<or> p = 13"
      using p by arith
    have ne: "(of_nat p :: u32) \<noteq> 0xFF"
      using pc by auto
    have ds: "detect_symbol m = ucast ((of_nat p :: u32) - 6)"
      using ne some(2) by (simp add: detect_symbol_def Let_def)
    have "unat (ucast ((of_nat p :: u32) - 6) :: u8) = p - 6"
      using pc by auto
    then have u: "unat (detect_symbol m) + 6 = p" using p ds by simp
    have "(ucast ((of_nat p :: u32) - 6) :: u8) \<noteq> 0xFF"
      using pc by auto
    then have "detect_symbol m \<noteq> 0xFF" using ds by simp
    with some p u show ?thesis
      by (auto dest: flt_less_not_NaN)
  qed
qed


lemma detect_symbol_all_equal: "detect_symbol (replicate 64 (Fin 1)) = 0"
  by (simp add: detect_symbol_def detect_step_def FFT_SIZE_def upt_rec)

theorem detect_symbol_first_maximum_witness:
  "length (replicate 64 (Fin 1)) = 64 \<and>
   detect_symbol (replicate 64 (Fin 1)) \<noteq> 0xFF \<and>
   unat (detect_symbol (replicate 64 (Fin 1))) < 8 \<and>
   flt_less (Fin (- 1000000))
            (replicate 64 (Fin 1) ! (unat (detect_symbol (replicate 64 (Fin 1))) + 6))"
proof -
  have l: "length (replicate 64 (Fin 1)) = 64" by simp
  have n: "detect_symbol (replicate 64 (Fin 1)) \<noteq> 0xFF"
    by (simp add: detect_symbol_all_equal)
  from detect_symbol_first_maximum[OF l] n l show ?thesis
    by blast
qed

text \<open>
  C5 as stated fails where all eight tone-bin magnitudes are equal: with every magnitude 1,
  no bin strictly exceeds the others, and \<open>detect_symbol\<close> returns the symbol 0 (bin 6),
  not the failure marker.
\<close>

theorem detect_symbol_tie_returns_symbol:
  "detect_symbol (replicate 64 (Fin 1)) = 0 \<and> detect_symbol (replicate 64 (Fin 1)) \<noteq> 0xFF"
  by (simp add: detect_symbol_all_equal)

section \<open>Word parser\<close>

lemma voting_bit0: 
  "decode_word_with_voting ((replicate 147 0)[0 := 1, 49 := 1, 98 := 1]) = (0, 1)"
  by (simp add: decode_word_with_voting_def vote_step_def bit_copy_def majority_vote_def
      WORD_BITS_def SYMBOL_REPETITION_def SYMBOLS_PER_WORD_def BITS_PER_SYMBOL_def upt_rec Let_def)

lemma decode_initial_1:
  "fst (decode golay_static_initial 1) = 1 \<and> fst (snd (decode golay_static_initial 1)) = 0"
  using init_table_1[of golay_static_initial]
  by (simp add: decode_def Let_def compute_syndrome_1 golay_static_initial_def)

text \<open>
  C9. For a 147-symbol input whose majority-voted word Golay-decodes as correctable (error
  count other than 0xFF), \<open>parse_word\<close> takes the preamble, the payload and the address
  from the voted word itself (\<open>raw_word AND 0xFFFFFF\<close>); of the result of \<open>decode\<close> only the
  error count reaches the output, as \<open>fec_errors\<close>, and the decoded information word is not
  used. The returned flag and \<open>valid\<close> are the result of the ASCII check of the voted
  word's payload.
\<close>

theorem parse_word_from_voted_word:
  assumes "length symbols = 147"
    and "fst (decode gs (snd (decode_word_with_voting symbols))) \<noteq> 0xFF"
  shows "let raw_word = snd (decode_word_with_voting symbols);
             w = raw_word AND 0xFFFFFF;
             r = parse_word gs symbols output;
             out = fst (snd r)
         in type out = extract_preamble w
          \<and> raw_payload out = extract_payload w
          \<and> address out = snd (decode_ascii (extract_payload w))
          \<and> valid out = fst (decode_ascii (extract_payload w))
          \<and> fst r = fst (decode_ascii (extract_payload w))
          \<and> ALEWord.fec_errors out = fst (decode gs raw_word)
          \<and> timestamp_ms out = timestamp_ms output
          \<and> snd (snd r) = snd (snd (decode gs raw_word))"
  using assms(2) by (simp add: parse_word_def parse_from_bits_def Let_def)

text \<open>
  Witness: the symbols 0, 49 and 98 carry bit 0, so the voted word is 0x000001. Golay decoding
  corrects it to the information word 0 with 1 error; the output keeps the preamble THRU (1)
  of the voted word and records 1 FEC error.
\<close>

theorem parse_word_from_voted_word_witness:
  "length ((replicate 147 (0::u8))[0 := 1, 49 := 1, 98 := 1]) = 147 \<and>
   fst (decode golay_static_initial
          (snd (decode_word_with_voting ((replicate 147 0)[0 := 1, 49 := 1, 98 := 1])))) \<noteq> 0xFF \<and>
   fst (snd (decode golay_static_initial
          (snd (decode_word_with_voting ((replicate 147 0)[0 := 1, 49 := 1, 98 := 1]))))) = 0 \<and>
   type (fst (snd (parse_word golay_static_initial
          ((replicate 147 0)[0 := 1, 49 := 1, 98 := 1]) ALEWord_new))) = THRU \<and>
   ALEWord.fec_errors (fst (snd (parse_word golay_static_initial
          ((replicate 147 0)[0 := 1, 49 := 1, 98 := 1]) ALEWord_new))) = 1"
  using parse_word_from_voted_word[of "(replicate 147 0)[0 := 1, 49 := 1, 98 := 1]"
          golay_static_initial ALEWord_new]
  by (simp add: voting_bit0 decode_initial_1 Let_def extract_preamble_def WordType_of_def)

section \<open>Link state machine\<close>

lemma current_state_set_channel [simp]: "current_state (set_channel sm i) = current_state sm"
  by (simp add: set_channel_def Let_def)

lemma current_state_transmit_word [simp]: "current_state (transmit_word sm w) = current_state sm"
  by (simp add: transmit_word_def)

lemma current_state_enter_state [simp]: "current_state (enter_state sm s) = current_state sm"
  by (cases s) (simp_all add: enter_state_def Let_def)

lemma current_state_exit_state [simp]: "current_state (exit_state sm s) = current_state sm"
  by (cases s) (simp_all add: exit_state_def)

lemma current_state_transition_to: "current_state (snd (transition_to sm s)) = s"
  by (simp add: transition_to_def Let_def)





lemma current_state_hop [simp]: "current_state (hop_to_next_channel sm) = current_state sm"
  by (simp add: hop_to_next_channel_def Let_def)

lemma current_state_handle_scanning [simp]: "current_state (handle_scanning sm) = current_state sm"
  by (simp add: handle_scanning_def)

text \<open>
  C8 (amended). When \<open>update now\<close> is called in CALLING or HANDSHAKE and \<open>now\<close> minus the
  state-entry time (in 32-bit unsigned arithmetic) is strictly greater than 30000, the link
  timeout check succeeds and LINK_TIMEOUT is processed: after the call the machine is in IDLE
  if it was in CALLING, in SCANNING if it was in HANDSHAKE.
\<close>

theorem link_timeout_after_30000:
  assumes "current_state sm = CALLING \<or> current_state sm = HANDSHAKE"
    and "now - state_entry_time_ms sm > 30000"
  shows "check_link_timeout (sm\<lparr>current_time_ms := now\<rparr>) \<and>
         current_state (update sm now) = (if current_state sm = CALLING then IDLE else SCANNING)"
  using assms
  by (auto simp add: update_def check_link_timeout_def CALL_TIMEOUT_MS_def process_event_def
        current_state_transition_to Let_def)

theorem link_timeout_after_30000_witness:
  "(current_state (snd (process_event ALEStateMachine_new CALL_REQUEST)) = CALLING
      \<or> current_state (snd (process_event ALEStateMachine_new CALL_REQUEST)) = HANDSHAKE) \<and>
   (30001 :: u32) - state_entry_time_ms (snd (process_event ALEStateMachine_new CALL_REQUEST)) > 30000 \<and>
   current_state (update (snd (process_event ALEStateMachine_new CALL_REQUEST)) 30001) = IDLE \<and>
   (current_state (snd (process_event (snd (process_event ALEStateMachine_new START_SCAN))
                          CALL_DETECTED)) = CALLING
      \<or> current_state (snd (process_event (snd (process_event ALEStateMachine_new START_SCAN))
                          CALL_DETECTED)) = HANDSHAKE) \<and>
   (30001 :: u32) - state_entry_time_ms (snd (process_event
        (snd (process_event ALEStateMachine_new START_SCAN)) CALL_DETECTED)) > 30000 \<and>
   current_state (update (snd (process_event (snd (process_event ALEStateMachine_new START_SCAN))
                          CALL_DETECTED)) 30001) = SCANNING"
  using link_timeout_after_30000[of "snd (process_event ALEStateMachine_new CALL_REQUEST)" 30001]
    link_timeout_after_30000[of "snd (process_event (snd (process_event ALEStateMachine_new START_SCAN))
                          CALL_DETECTED)" 30001]
  by (simp add: process_event_def ALEStateMachine_new_def ScanConfig_new_def transition_to_def
        exit_state_def enter_state_def Let_def)

text \<open>
  C8 as stated fails at exact equality: a machine that entered CALLING at time 0 and is
  updated at time 30000 stays in CALLING.
\<close>

theorem no_link_timeout_at_exactly_30000:
  "current_state (snd (process_event ALEStateMachine_new CALL_REQUEST)) = CALLING \<and>
   (30000 :: u32) - state_entry_time_ms (snd (process_event ALEStateMachine_new CALL_REQUEST)) = 30000 \<and>
   current_state (update (snd (process_event ALEStateMachine_new CALL_REQUEST)) 30000) = CALLING"
  by (simp add: process_event_def ALEStateMachine_new_def transition_to_def exit_state_def
        enter_state_def Let_def update_def check_link_timeout_def CALL_TIMEOUT_MS_def)

section \<open>FS-1052 data frames and CRC-32\<close>

lemma xor_right_cancel: "(a::u32) XOR x = b XOR x \<Longrightarrow> a = b"
proof -
  assume e: "a XOR x = b XOR x"
  have "a = (a XOR x) XOR x" by (simp add: xor.assoc)
  also have "\<dots> = (b XOR x) XOR x" using e by simp
  also have "\<dots> = b" by (simp add: xor.assoc)
  finally show "a = b" .
qed

lemma msb_test: "((crc :: u32) AND 0x80000000 \<noteq> 0) = bit crc 31"
proof -
  have "(0x80000000 :: u32) = 2 ^ 31" by simp
  then show ?thesis by (simp only: and_exp_eq_0_iff_not_bit) simp
qed

lemma bit_push1_Suc: "bit (push_bit 1 (a::u32)) (Suc n) = (n < 31 \<and> bit a n)"
  by (simp only: bit_push_bit_iff) (auto simp: possible_bit_word)

lemma bit_push1_0: "\<not> bit (push_bit 1 (a::u32)) 0"
  by (simp only: bit_push_bit_iff) simp

lemma poly_bit0: "bit CRC32_POLYNOMIAL 0"
  by (simp add: CRC32_POLYNOMIAL_def)

lemma crc32_shift_bit0: "bit (crc32_shift c) 0 = bit c 31"
  unfolding crc32_shift_def msb_test
  by (simp only: bit_xor_iff bit_push1_0 poly_bit0 if_distrib[of "\<lambda>x. bit x 0"]) simp

lemma push1_inj: 
  assumes "push_bit 1 (a::u32) = push_bit 1 b" "bit a 31 = bit b 31"
  shows "a = b"
proof (rule bit_word_eqI)
  fix n assume n: "n < LENGTH(32)"
  show "bit a n = bit b n"
  proof (cases "n = 31")
    case True then show ?thesis using assms(2) by simp
  next
    case False
    with n have "n < 31" by simp
    then have "bit (push_bit 1 a) (Suc n) = bit a n" "bit (push_bit 1 b) (Suc n) = bit b n"
      by (simp_all only: bit_push1_Suc simp_thms)
    then show ?thesis using assms(1) by simp
  qed
qed

lemma crc32_shift_inj: "crc32_shift a = crc32_shift b \<Longrightarrow> a = b"
proof -
  assume e: "crc32_shift a = crc32_shift b"
  then have m: "bit a 31 = bit b 31" using crc32_shift_bit0 by metis
  have "push_bit 1 a = push_bit 1 b"
  proof (cases "bit a 31")
    case True
    with m e have "push_bit 1 a XOR CRC32_POLYNOMIAL = push_bit 1 b XOR CRC32_POLYNOMIAL"
      unfolding crc32_shift_def msb_test by (simp only: if_True)
    then show ?thesis by (rule xor_right_cancel)
  next
    case False
    with m e show ?thesis
      unfolding crc32_shift_def msb_test by (simp only: if_False)
  qed
  then show "a = b" using m by (rule push1_inj)
qed

lemma foldl_shift_inj:
  "foldl (\<lambda>c i. crc32_shift c) a xs = foldl (\<lambda>c i. crc32_shift c) b xs \<Longrightarrow> a = b"
  by (induction xs arbitrary: a b) (auto dest: crc32_shift_inj)

lemma ucast_push24_inj:
  assumes "push_bit 24 (ucast (d::u8) :: u32) = push_bit 24 (ucast (d'::u8))"
  shows "d = d'"
proof (rule bit_word_eqI)
  fix n assume n: "n < LENGTH(8)"
  then have "bit (push_bit 24 (ucast d :: u32)) (24 + n) = bit d n"
        "bit (push_bit 24 (ucast d' :: u32)) (24 + n) = bit d' n"
    by (simp_all add: bit_simps)
  then show "bit d n = bit d' n" using assms by simp
qed

lemma crc32_byte_inj: "crc32_byte d a = crc32_byte d' b \<Longrightarrow> d = d' \<longleftrightarrow> a = b"
proof -
  assume "crc32_byte d a = crc32_byte d' b"
  then have e: "a XOR push_bit 24 (ucast d :: u32) = b XOR push_bit 24 (ucast d')"
    unfolding crc32_byte_def Let_def by (rule foldl_shift_inj)
  show "d = d' \<longleftrightarrow> a = b"
  proof
    assume "d = d'" with e show "a = b" by (auto dest: xor_right_cancel)
  next
    assume "a = b" with e have "push_bit 24 (ucast d :: u32) = push_bit 24 (ucast d')"
      by (metis xor_right_cancel xor.commute)
    then show "d = d'" by (rule ucast_push24_inj)
  qed
qed

lemma foldl_crc_inj:
  "foldl (\<lambda>crc d. crc32_byte d crc) a xs = foldl (\<lambda>crc d. crc32_byte d crc) b xs \<Longrightarrow> a = b"
proof (induction xs arbitrary: a b)
  case Nil then show ?case by simp
next
  case (Cons x xs)
  then have "crc32_byte x a = crc32_byte x b" by simp
  then show ?case using crc32_byte_inj by blast
qed

lemma calculate_crc32_byte_change:
  assumes "i < length xs" "x \<noteq> xs ! i"
  shows "calculate_crc32 (xs[i := x]) \<noteq> calculate_crc32 xs"
proof -
  let ?f = "\<lambda>crc d. crc32_byte d crc"
  let ?s = "foldl ?f 0xFFFFFFFF (take i xs)"
  have a: "xs = take i xs @ xs ! i # drop (Suc i) xs"
    using assms(1) by (simp add: id_take_nth_drop)
  have b: "xs[i := x] = take i xs @ x # drop (Suc i) xs"
    using assms(1) by (simp add: upd_conv_take_nth_drop)
  have ne: "crc32_byte x ?s \<noteq> crc32_byte (xs ! i) ?s"
    using assms(2) crc32_byte_inj by blast
  have fa: "foldl ?f 0xFFFFFFFF xs = foldl ?f (crc32_byte (xs ! i) ?s) (drop (Suc i) xs)"
    by (subst a) simp
  have fb: "foldl ?f 0xFFFFFFFF (xs[i := x]) = foldl ?f (crc32_byte x ?s) (drop (Suc i) xs)"
    by (subst b) simp
  have "foldl ?f 0xFFFFFFFF (xs[i := x]) \<noteq> foldl ?f 0xFFFFFFFF xs"
    unfolding fa fb using ne foldl_crc_inj by blast
  then show ?thesis by (simp add: calculate_crc32_def)
qed

lemma mask8_u32: "(0xFF :: u32) = mask 8" by (simp add: mask_eq_exp_minus_1)
lemma mask8_u16: "(0xFF :: u16) = mask 8" by (simp add: mask_eq_exp_minus_1)

lemma be32_roundtrip:
  "push_bit 24 (ucast (ucast (drop_bit 24 x AND 0xFF) :: u8) :: u32) OR
   push_bit 16 (ucast (ucast (drop_bit 16 x AND 0xFF) :: u8) :: u32) OR
   push_bit 8 (ucast (ucast (drop_bit 8 x AND 0xFF) :: u8) :: u32) OR
   (ucast (ucast (x AND 0xFF) :: u8) :: u32) = (x :: u32)"
  unfolding mask8_u32
proof (rule bit_word_eqI)
  fix n assume "n < LENGTH(32)"
  then consider "n < 8" | "8 \<le> n" "n < 16" | "16 \<le> n" "n < 24" | "24 \<le> n" "n < 32"
    by fastforce
  then show "bit (push_bit 24 (ucast (ucast (drop_bit 24 x AND mask 8) :: u8) :: u32) OR
   push_bit 16 (ucast (ucast (drop_bit 16 x AND mask 8) :: u8) :: u32) OR
   push_bit 8 (ucast (ucast (drop_bit 8 x AND mask 8) :: u8) :: u32) OR
   (ucast (ucast (x AND mask 8) :: u8) :: u32)) n = bit x n"
    by cases (auto simp add: bit_simps)
qed

lemma be16_roundtrip:
  "push_bit 8 (ucast (ucast (drop_bit 8 x AND 0xFF) :: u8) :: u16) OR
   (ucast (ucast (x AND 0xFF) :: u8) :: u16) = (x :: u16)"
  unfolding mask8_u16
  by (rule bit_word_eqI) (auto simp add: bit_simps)

lemma be32_byte3:
  "(ucast (drop_bit 24 (push_bit 24 (ucast (a::u8) :: u32) OR push_bit 16 (ucast (b::u8) :: u32) OR
      push_bit 8 (ucast (c::u8) :: u32) OR (ucast (d::u8) :: u32)) AND 0xFF) :: u8) = a"
  unfolding mask8_u32
  by (rule bit_word_eqI) (auto simp add: bit_simps dest: bit_imp_le_length)

lemma be32_byte2:
  "(ucast (drop_bit 16 (push_bit 24 (ucast (a::u8) :: u32) OR push_bit 16 (ucast (b::u8) :: u32) OR
      push_bit 8 (ucast (c::u8) :: u32) OR (ucast (d::u8) :: u32)) AND 0xFF) :: u8) = b"
  unfolding mask8_u32
  by (rule bit_word_eqI) (auto simp add: bit_simps dest: bit_imp_le_length)

lemma be32_byte1:
  "(ucast (drop_bit 8 (push_bit 24 (ucast (a::u8) :: u32) OR push_bit 16 (ucast (b::u8) :: u32) OR
      push_bit 8 (ucast (c::u8) :: u32) OR (ucast (d::u8) :: u32)) AND 0xFF) :: u8) = c"
  unfolding mask8_u32
  by (rule bit_word_eqI) (auto simp add: bit_simps dest: bit_imp_le_length)

lemma be32_byte0:
  "(ucast ((push_bit 24 (ucast (a::u8) :: u32) OR push_bit 16 (ucast (b::u8) :: u32) OR
      push_bit 8 (ucast (c::u8) :: u32) OR (ucast (d::u8) :: u32)) AND 0xFF) :: u8) = d"
  unfolding mask8_u32
  by (rule bit_word_eqI) (auto simp add: bit_simps dest: bit_imp_le_length)

lemma be32_inj:
  assumes "push_bit 24 (ucast (a::u8) :: u32) OR push_bit 16 (ucast (b::u8) :: u32) OR
      push_bit 8 (ucast (c::u8) :: u32) OR (ucast (d::u8) :: u32) =
      push_bit 24 (ucast (a'::u8) :: u32) OR push_bit 16 (ucast (b'::u8) :: u32) OR
      push_bit 8 (ucast (c'::u8) :: u32) OR (ucast (d'::u8) :: u32)"
  shows "a = a' \<and> b = b' \<and> c = c' \<and> d = d'"
  by (metis assms be32_byte0 be32_byte1 be32_byte2 be32_byte3)

lemma validate_crc32_append:
  "validate_crc32 (body @ [c3, c2, c1, c0]) =
     (calculate_crc32 body =
        (push_bit 24 (ucast c3 :: u32) OR push_bit 16 (ucast c2 :: u32) OR
         push_bit 8 (ucast c1 :: u32) OR (ucast c0 :: u32)))"
  by (simp add: validate_crc32_def Let_def nth_append)

lemma validate_append_crc32: "validate_crc32 (append_crc32 body)"
  unfolding append_crc32_def Let_def validate_crc32_append
  by (simp only: be32_roundtrip)

lemma length_append_crc32: "length (append_crc32 body) = length body + 4"
  by (simp add: append_crc32_def Let_def)

lemma take_append_crc32: "n \<le> length body \<Longrightarrow> take n (append_crc32 body) = take n body"
  by (simp add: append_crc32_def Let_def)

lemma nth_append_crc32: "i < length body \<Longrightarrow> append_crc32 body ! i = body ! i"
  by (simp add: append_crc32_def Let_def nth_append)

lemma validate_crc32_bytes:
  assumes "validate_crc32 (body @ [a, b, c, d])"
  shows "a = ucast (drop_bit 24 (calculate_crc32 body) AND 0xFF) \<and>
         b = ucast (drop_bit 16 (calculate_crc32 body) AND 0xFF) \<and>
         c = ucast (drop_bit 8 (calculate_crc32 body) AND 0xFF) \<and>
         d = ucast (calculate_crc32 body AND 0xFF)"
proof -
  from assms have e: "calculate_crc32 body =
        (push_bit 24 (ucast a :: u32) OR push_bit 16 (ucast b :: u32) OR
         push_bit 8 (ucast c :: u32) OR (ucast d :: u32))"
    by (simp only: validate_crc32_append)
  show ?thesis
    unfolding e by (simp only: be32_byte0 be32_byte1 be32_byte2 be32_byte3)
qed

lemma byte_change_rejected:
  assumes "i < length (append_crc32 body)" "x \<noteq> append_crc32 body ! i"
  shows "\<not> validate_crc32 ((append_crc32 body)[i := x])"
proof (cases "i < length body")
  case True
  then have x: "x \<noteq> body ! i" using assms(2) by (simp add: nth_append_crc32)
  have "(append_crc32 body)[i := x] =
        body[i := x] @ drop (length body) (append_crc32 body)"
    using True by (simp add: append_crc32_def Let_def list_update_append)
  moreover have "drop (length body) (append_crc32 body) =
      [ucast (drop_bit 24 (calculate_crc32 body) AND 0xFF), ucast (drop_bit 16 (calculate_crc32 body) AND 0xFF),
       ucast (drop_bit 8 (calculate_crc32 body) AND 0xFF), ucast (calculate_crc32 body AND 0xFF)]"
    by (simp add: append_crc32_def Let_def)
  ultimately have "validate_crc32 ((append_crc32 body)[i := x]) =
      (calculate_crc32 (body[i := x]) = calculate_crc32 body)"
    by (simp only: validate_crc32_append be32_roundtrip)
  then show ?thesis using calculate_crc32_byte_change[OF True x] by simp
next
  case False
  define j where "j = i - length body"
  have j: "j < 4" "i = length body + j"
    using False assms(1) by (simp_all add: j_def length_append_crc32)
  let ?crc = "calculate_crc32 body"
  let ?hh = "ucast (drop_bit 24 ?crc AND 0xFF) :: u8"
  let ?hl = "ucast (drop_bit 16 ?crc AND 0xFF) :: u8"
  let ?lh = "ucast (drop_bit 8 ?crc AND 0xFF) :: u8"
  let ?ll = "ucast (?crc AND 0xFF) :: u8"
  have ab: "append_crc32 body = body @ [?hh, ?hl, ?lh, ?ll]"
    by (simp add: append_crc32_def Let_def)
  from j(1) consider "j = 0" | "j = 1" | "j = 2" | "j = 3" by linarith
  then show ?thesis
  proof cases
    case 1
    then have "(append_crc32 body)[i := x] = body @ [x, ?hl, ?lh, ?ll]" "x \<noteq> ?hh"
      using j(2) assms(2) unfolding ab by (simp_all add: list_update_append nth_append)
    then show ?thesis
      using validate_crc32_bytes by metis
  next
    case 2
    then have "(append_crc32 body)[i := x] = body @ [?hh, x, ?lh, ?ll]" "x \<noteq> ?hl"
      using j(2) assms(2) unfolding ab by (simp_all add: list_update_append nth_append)
    then show ?thesis
      using validate_crc32_bytes by metis
  next
    case 3
    then have "(append_crc32 body)[i := x] = body @ [?hh, ?hl, x, ?ll]" "x \<noteq> ?lh"
      using j(2) assms(2) unfolding ab by (simp_all add: list_update_append nth_append)
    then show ?thesis
      using validate_crc32_bytes by metis
  next
    case 4
    then have "(append_crc32 body)[i := x] = body @ [?hh, ?hl, ?lh, x]" "x \<noteq> ?ll"
      using j(2) assms(2) unfolding ab by (simp_all add: list_update_append nth_append)
    then show ?thesis
      using validate_crc32_bytes by metis
  qed
qed

lemma bit_flip_changes: "k < 8 \<Longrightarrow> (b :: u8) XOR push_bit k 1 \<noteq> b"
proof
  assume k: "k < 8" and e: "b XOR push_bit k 1 = b"
  have "bit (b XOR push_bit k 1) k = (\<not> bit b k)"
    using k by (simp add: bit_simps)
  with e show False by simp
qed

lemma mask3_u8: "(7 :: u8) = mask 3" by (simp add: mask_eq_exp_minus_1)

lemma le7_bits: "(r :: u8) \<le> 7 \<Longrightarrow> bit r n \<Longrightarrow> n < 3"
proof (rule ccontr)
  assume a: "r \<le> 7" and b: "bit r n" and n: "\<not> n < 3"
  have "r < 2 ^ 3" using a by (simp add: word_le_nat_alt word_less_nat_alt)
  then have "\<not> bit r n" using n
    by (metis bit_take_bit_iff less_mask_eq take_bit_eq_mask)
  with b show False by simp
qed

lemma mask1_u8: "(1 :: u8) = mask 1" by (simp add: mask_eq_exp_minus_1)

lemma header_rate:
  assumes "(r :: u8) \<le> 7"
  shows "drop_bit 4 ((0x01 OR push_bit 7 (x :: u8)) OR push_bit 4 (r AND 0x07)) AND 0x07 = r"
proof (rule bit_word_eqI)
  fix n assume "n < LENGTH(8)"
  then show "bit (drop_bit 4 ((0x01 OR push_bit 7 x) OR push_bit 4 (r AND 0x07)) AND 0x07) n = bit r n"
    using le7_bits[OF assms, of n]
    unfolding mask3_u8
    by (auto simp add: bit_simps)
qed

lemma header_format_bit:
  "drop_bit 7 ((0x01 OR push_bit 7 (x :: u8)) OR push_bit 4 (r AND 0x07)) AND 0x01 = x AND 0x01"
proof (rule bit_word_eqI)
  fix n assume "n < LENGTH(8)"
  then show "bit (drop_bit 7 ((0x01 OR push_bit 7 x) OR push_bit 4 (r AND 0x07)) AND 0x01) n
       = bit (x AND 0x01) n"
    unfolding mask3_u8
    by (auto simp add: bit_simps)
qed

lemma header_format:
  "DataRateFormat_of_u8
     (drop_bit 7 ((0x01 OR push_bit 7 (DataRateFormat_to_u8 f)) OR push_bit 4 (r AND 0x07)) AND 0x01) = f"
  unfolding header_format_bit
  by (cases f) (simp_all add: DataRateFormat_of_u8_def DataRateFormat_to_u8_def)

lemma parse_validate_fail: "\<not> validate_crc32 buffer \<Longrightarrow> \<not> fst (parse_data_frame buffer frame)"
  by (simp add: parse_data_frame_def)

text \<open>
  C2. Let \<open>F\<close> be a well-formed data frame: data rate in 0..7, data length at most 1023, with its
  1023-byte data array, formatted into a buffer that is large enough. Then
  \<open>format_data_frame\<close> succeeds with a buffer of 13 bytes plus the data;
  \<open>parse_data_frame\<close> accepts that buffer and recovers the rate format, the rate, the
  interleaver length, the sequence number, the message byte offset, the data length and the
  data bytes of \<open>F\<close>; and after flipping any one bit of the buffer, \<open>parse_data_frame\<close>
  rejects it.
\<close>

theorem data_frame_roundtrip_and_bit_flip:
  assumes "data_rate F \<le> 7" and "unat (data_length F) \<le> 1023"
    and "length (data F) = 1023" and "unat (data_length F) + 20 \<le> buffer_size"
  shows "\<exists>buf. format_data_frame F buffer_size = Some buf \<and>
           length buf = unat (data_length F) + 13 \<and>
           fst (parse_data_frame buf G) \<and>
           data_rate_format (snd (parse_data_frame buf G)) = data_rate_format F \<and>
           data_rate (snd (parse_data_frame buf G)) = data_rate F \<and>
           interleaver_length (snd (parse_data_frame buf G)) = interleaver_length F \<and>
           sequence_number (snd (parse_data_frame buf G)) = sequence_number F \<and>
           msg_byte_offset (snd (parse_data_frame buf G)) = msg_byte_offset F \<and>
           data_length (snd (parse_data_frame buf G)) = data_length F \<and>
           take (unat (data_length F)) (data (snd (parse_data_frame buf G)))
             = take (unat (data_length F)) (data F) \<and>
           (\<forall>i < length buf. \<forall>k < 8.
              \<not> fst (parse_data_frame (buf[i := buf ! i XOR push_bit k 1]) G'))"
proof -
  let ?n = "unat (data_length F)"
  let ?b0 = "((0x01 :: u8) OR push_bit 7 (DataRateFormat_to_u8 (data_rate_format F)))
               OR push_bit 4 (data_rate F AND 0x07)"
  define hdr where "hdr = [?b0, interleaver_length F, sequence_number F,
               ucast (drop_bit 24 (msg_byte_offset F) AND 0xFF),
               ucast (drop_bit 16 (msg_byte_offset F) AND 0xFF),
               ucast (drop_bit 8 (msg_byte_offset F) AND 0xFF),
               ucast (msg_byte_offset F AND 0xFF),
               ucast (drop_bit 8 (data_length F) AND 0xFF),
               ucast (data_length F AND 0xFF)]"
  let ?payload = "take ?n (data F)"
  let ?body = "hdr @ ?payload"
  let ?buf = "append_crc32 ?body"
  have fmt: "format_data_frame F buffer_size = Some ?buf"
    using assms(4) by (simp add: format_data_frame_def Let_def hdr_def)
  have lh: "length hdr = 9" by (simp add: hdr_def)
  have lp: "length ?payload = ?n" using assms(2,3) by simp
  have lb: "length ?body = ?n + 9" using lp lh by simp
  have len: "length ?buf = ?n + 13" using lb by (simp add: length_append_crc32)
  have v: "validate_crc32 ?buf" by (rule validate_append_crc32)
  have hd: "?buf ! i = hdr ! i" if "i < 9" for i
    using that lb lh by (simp add: nth_append_crc32 nth_append)
  have b0: "?buf ! 0 = ?b0" and b1: "?buf ! 1 = interleaver_length F"
    and b2: "?buf ! 2 = sequence_number F"
    and b3: "?buf ! 3 = ucast (drop_bit 24 (msg_byte_offset F) AND 0xFF)"
    and b4: "?buf ! 4 = ucast (drop_bit 16 (msg_byte_offset F) AND 0xFF)"
    and b5: "?buf ! 5 = ucast (drop_bit 8 (msg_byte_offset F) AND 0xFF)"
    and b6: "?buf ! 6 = ucast (msg_byte_offset F AND 0xFF)"
    and b7: "?buf ! 7 = ucast (drop_bit 8 (data_length F) AND 0xFF)"
    and b8: "?buf ! 8 = ucast (data_length F AND 0xFF)"
    by (simp_all only: hd) (simp_all add: hdr_def)
  have dl: "push_bit 8 (ucast (?buf ! 7) :: u16) OR ucast (?buf ! 8) = data_length F"
    unfolding b7 b8 by (rule be16_roundtrip)
  have off: "push_bit 24 (ucast (?buf ! 3) :: u32) OR push_bit 16 (ucast (?buf ! 4) :: u32) OR
             push_bit 8 (ucast (?buf ! 5) :: u32) OR (ucast (?buf ! 6) :: u32) = msg_byte_offset F"
    unfolding b3 b4 b5 b6 by (rule be32_roundtrip)
  have rate: "drop_bit 4 (?buf ! 0) AND 0x07 = data_rate F"
    unfolding b0 by (rule header_rate[OF assms(1)])
  have form: "DataRateFormat_of_u8 (drop_bit 7 (?buf ! 0) AND 0x01) = data_rate_format F"
    unfolding b0 by (rule header_format)
  have dr: "take ?n (drop 9 ?buf) = ?payload"
    using lp lh by (simp add: append_crc32_def Let_def)
  have parse: "parse_data_frame ?buf G =
     (True, G\<lparr>data_rate_format := data_rate_format F, data_rate := data_rate F,
               interleaver_length := interleaver_length F, sequence_number := sequence_number F,
               msg_byte_offset := msg_byte_offset F, data_length := data_length F,
               data := ?payload @ drop ?n (data G)\<rparr>)"
    unfolding parse_data_frame_def Let_def
    using v len assms(2)
    by (simp only: dl off rate form b1 b2 dr memcpy_def) (simp add: MAX_DATA_BLOCK_LENGTH_def dr)
  have flip: "\<forall>i < length ?buf. \<forall>k < 8.
              \<not> fst (parse_data_frame (?buf[i := ?buf ! i XOR push_bit k 1]) G')"
  proof (intro allI impI)
    fix i k :: nat assume i: "i < length ?buf" and k: "k < 8"
    have "?buf ! i XOR push_bit k 1 \<noteq> ?buf ! i" by (rule bit_flip_changes[OF k])
    then have "\<not> validate_crc32 (?buf[i := ?buf ! i XOR push_bit k 1])"
      by (rule byte_change_rejected[OF i])
    then show "\<not> fst (parse_data_frame (?buf[i := ?buf ! i XOR push_bit k 1]) G')"
      by (rule parse_validate_fail)
  qed
  have p1: "fst (parse_data_frame ?buf G)"
    and p2: "data_rate_format (snd (parse_data_frame ?buf G)) = data_rate_format F"
    and p3: "data_rate (snd (parse_data_frame ?buf G)) = data_rate F"
    and p4: "interleaver_length (snd (parse_data_frame ?buf G)) = interleaver_length F"
    and p5: "sequence_number (snd (parse_data_frame ?buf G)) = sequence_number F"
    and p6: "msg_byte_offset (snd (parse_data_frame ?buf G)) = msg_byte_offset F"
    and p7: "data_length (snd (parse_data_frame ?buf G)) = data_length F"
    by (simp_all add: parse)
  have p8: "take ?n (data (snd (parse_data_frame ?buf G))) = take ?n (data F)"
    using lp by (simp add: parse)
  from fmt len p1 p2 p3 p4 p5 p6 p7 p8 flip show ?thesis
    by blast
qed

theorem data_frame_roundtrip_and_bit_flip_witness:
  "data_rate (DataFrame_new\<lparr>sequence_number := 7, msg_byte_offset := 1023, data_length := 3\<rparr>) \<le> 7 \<and>
   unat (data_length (DataFrame_new\<lparr>sequence_number := 7, msg_byte_offset := 1023, data_length := 3\<rparr>)) \<le> 1023 \<and>
   length (data (DataFrame_new\<lparr>sequence_number := 7, msg_byte_offset := 1023, data_length := 3\<rparr>)) = 1023 \<and>
   unat (data_length (DataFrame_new\<lparr>sequence_number := 7, msg_byte_offset := 1023, data_length := 3\<rparr>)) + 20 \<le> (1200 :: nat) \<and>
   length (the (format_data_frame
      (DataFrame_new\<lparr>sequence_number := 7, msg_byte_offset := 1023, data_length := 3\<rparr>) 1200)) = 16 \<and>
   fst (parse_data_frame (the (format_data_frame
      (DataFrame_new\<lparr>sequence_number := 7, msg_byte_offset := 1023, data_length := 3\<rparr>) 1200)) DataFrame_new) \<and>
   sequence_number (snd (parse_data_frame (the (format_data_frame
      (DataFrame_new\<lparr>sequence_number := 7, msg_byte_offset := 1023, data_length := 3\<rparr>) 1200)) DataFrame_new)) = 7 \<and>
   \<not> fst (parse_data_frame
      ((the (format_data_frame
          (DataFrame_new\<lparr>sequence_number := 7, msg_byte_offset := 1023, data_length := 3\<rparr>) 1200))
       [2 := the (format_data_frame
          (DataFrame_new\<lparr>sequence_number := 7, msg_byte_offset := 1023, data_length := 3\<rparr>) 1200) ! 2
             XOR push_bit 0 1]) DataFrame_new)"
proof -
  let ?F = "DataFrame_new\<lparr>sequence_number := 7, msg_byte_offset := 1023, data_length := 3\<rparr>"
  have h1: "data_rate ?F \<le> 7"
    by (simp add: DataFrame_new_def DataRate_to_u8_def)
  have h2: "unat (data_length ?F) \<le> 1023" by simp
  have h3: "length (data ?F) = 1023"
    by (simp add: DataFrame_new_def MAX_DATA_BLOCK_LENGTH_def)
  have h4: "unat (data_length ?F) + 20 \<le> (1200 :: nat)" by simp
  from data_frame_roundtrip_and_bit_flip[OF h1 h2 h3 h4, of DataFrame_new DataFrame_new]
  obtain buf where b: "format_data_frame ?F 1200 = Some buf" "length buf = 16"
    "fst (parse_data_frame buf DataFrame_new)"
    "sequence_number (snd (parse_data_frame buf DataFrame_new)) = 7"
    "\<forall>i<length buf. \<forall>k<8. \<not> fst (parse_data_frame (buf[i := buf ! i XOR push_bit k 1]) DataFrame_new)"
    by auto
  have "(2::nat) < length buf" "(0::nat) < 8" using b(2) by simp_all
  with b(5) have "\<not> fst (parse_data_frame (buf[2 := buf ! 2 XOR push_bit 0 1]) DataFrame_new)"
    by blast
  with h1 h2 h3 h4 b(1-4) show ?thesis
    by (simp only: option.sel simp_thms)
qed

section \<open>Variable ARQ\<close>

text \<open>
  The handlers call \<open>process_event\<close> back at most twice below the outermost call
  (\<open>send_next_blocks\<close> raises FRAME_SENT, whose handler raises TRANSFER_COMPLETE, whose
  handlers raise nothing), so that any nesting bound of at least 3 gives the result of
  \<open>arq_process_event\<close>.
\<close>

lemma depth_step:
  "process_event_depth (Suc k) st event =
     (case m_state st of
        ARQ_IDLE \<Rightarrow> handle_idle (process_event_depth k) st event
      | TX_DATA \<Rightarrow> handle_tx_data (process_event_depth k) st event
      | WAIT_ACK \<Rightarrow> handle_wait_ack (process_event_depth k) st event
      | RX_DATA \<Rightarrow> Some (handle_rx_data st event)
      | SEND_ACK \<Rightarrow> Some (handle_send_ack st event)
      | RETRANSMIT \<Rightarrow> Some (handle_retransmit st event)
      | ARQ_ERROR \<Rightarrow> if event = RESET then Some (reset st) else Some st)"
  by (simp only: process_event_depth.simps(2))

lemma depth_transfer_complete:
  "process_event_depth (Suc n) st TRANSFER_COMPLETE = process_event_depth (Suc 0) st TRANSFER_COMPLETE"
  by (cases "m_state st") (simp_all add: handle_idle_def handle_tx_data_def handle_wait_ack_def)

lemma depth_frame_sent:
  "process_event_depth (Suc (Suc n)) st FRAME_SENT = process_event_depth (Suc (Suc 0)) st FRAME_SENT"
proof -
  have "process_event_depth (Suc n) st TRANSFER_COMPLETE
        = process_event_depth (Suc 0) st TRANSFER_COMPLETE"
    by (rule depth_transfer_complete)
  then show ?thesis
    by (cases "m_state st")
       (simp_all add: handle_idle_def handle_tx_data_def handle_wait_ack_def)
qed

lemma send_next_blocks_depth:
  "send_next_blocks (process_event_depth (Suc (Suc n))) st
     = send_next_blocks (process_event_depth (Suc (Suc 0))) st"
  unfolding send_next_blocks_def
  by (simp only: depth_frame_sent[of n])

lemma process_event_depth_enough:
  "process_event_depth (Suc (Suc (Suc n))) st event = arq_process_event st event"
proof -
  have a: "process_event_depth (Suc (Suc n)) st TRANSFER_COMPLETE
        = process_event_depth (Suc (Suc 0)) st TRANSFER_COMPLETE"
    by (simp only: depth_transfer_complete[of "Suc n"] depth_transfer_complete[of "Suc 0"])
  have b: "handle_tx_data (process_event_depth (Suc (Suc n))) st event
         = handle_tx_data (process_event_depth (Suc (Suc 0))) st event"
    unfolding handle_tx_data_def using a depth_frame_sent[of n st]
    by (cases event) simp_all
  have c: "handle_idle (process_event_depth (Suc (Suc n))) st event
         = handle_idle (process_event_depth (Suc (Suc 0))) st event"
    unfolding handle_idle_def by (simp only: send_next_blocks_depth[of n])
  have d: "handle_wait_ack (process_event_depth (Suc (Suc n))) st event
         = handle_wait_ack (process_event_depth (Suc (Suc 0))) st event"
    unfolding handle_wait_ack_def by (simp only: send_next_blocks_depth[of n])
  have "process_event_depth (Suc (Suc (Suc n))) st event
        = process_event_depth (Suc (Suc (Suc 0))) st event"
    unfolding depth_step[of "Suc (Suc n)"] depth_step[of "Suc (Suc 0)"]
    by (simp only: b c d)
  then show ?thesis by (simp add: arq_process_event_def numeral_3_eq_3)
qed

lemma create_blocks_loop_unfold:
  "off < len \<Longrightarrow>
   create_blocks_loop bytes len off seq blocks =
     create_blocks_loop bytes len (off + min 1023 (len - off)) (seq + 1)
       (blocks @ [\<lparr>sequence = seq, offset = of_nat off, blk_length = of_nat (min 1023 (len - off)),
                   blk_data = take (min 1023 (len - off)) (drop off bytes), acknowledged = False,
                   retransmit_count = 0, timestamp = 0\<rparr>])"
proof -
  assume a: "off < len"
  have "unat (seq + 1) < 256" using unsigned_less[of "seq + 1", where ?'a = nat] by simp
  then have "\<not> unat (seq + 1) \<ge> 256" by simp
  then show ?thesis
    using a by (subst create_blocks_loop.simps) (simp add: Let_def MAX_DATA_BLOCK_LENGTH_def)
qed

lemma create_blocks_loop_done:
  "\<not> off < len \<Longrightarrow> create_blocks_loop bytes len off seq blocks = blocks"
  by (subst create_blocks_loop.simps) simp

lemma create_blocks_loop_char:
  "\<exists>gen. create_blocks_loop bytes len off seq blocks = blocks @ gen \<and>
         length gen = (len - off + 1022) div 1023 \<and>
         (\<forall>j < length gen.
            sequence (gen ! j) = seq + of_nat j \<and>
            offset (gen ! j) = of_nat (off + 1023 * j) \<and>
            blk_length (gen ! j) = of_nat (min 1023 (len - (off + 1023 * j))) \<and>
            blk_data (gen ! j) = take (min 1023 (len - (off + 1023 * j))) (drop (off + 1023 * j) bytes) \<and>
            \<not> acknowledged (gen ! j) \<and> retransmit_count (gen ! j) = 0 \<and> timestamp (gen ! j) = 0)"
proof (induction bytes len off seq blocks rule: create_blocks_loop.induct)
  case (1 bytes len off seq blocks)
  show ?case
  proof (cases "off < len")
    case False
    then show ?thesis by (simp add: create_blocks_loop_done)
  next
    case True
    let ?n = "min 1023 (len - off)"
    let ?b = "\<lparr>sequence = seq, offset = of_nat off, blk_length = of_nat ?n,
                   blk_data = take ?n (drop off bytes), acknowledged = False,
                   retransmit_count = 0, timestamp = (0::u32)\<rparr>"
    have s2: "(if unat (seq + 1) \<ge> 256 then 0 else seq + 1) = seq + 1"
      using unsigned_less[of "seq + 1", where ?'a = nat] by simp
    note ih = "1.IH"[OF True refl refl refl refl, unfolded s2 MAX_DATA_BLOCK_LENGTH_def]
    then obtain gen where g: "create_blocks_loop bytes len (off + ?n) (seq + 1) (blocks @ [?b]) = (blocks @ [?b]) @ gen"
      "length gen = (len - (off + ?n) + 1022) div 1023"
      "\<forall>j < length gen.
            sequence (gen ! j) = seq + 1 + of_nat j \<and>
            offset (gen ! j) = of_nat (off + ?n + 1023 * j) \<and>
            blk_length (gen ! j) = of_nat (min 1023 (len - (off + ?n + 1023 * j))) \<and>
            blk_data (gen ! j) = take (min 1023 (len - (off + ?n + 1023 * j))) (drop (off + ?n + 1023 * j) bytes) \<and>
            \<not> acknowledged (gen ! j) \<and> retransmit_count (gen ! j) = 0 \<and> timestamp (gen ! j) = 0"
      by (elim exE conjE) 
    have res: "create_blocks_loop bytes len off seq blocks = blocks @ (?b # gen)"
      using create_blocks_loop_unfold[OF True] g(1) by simp
    have len: "length (?b # gen) = (len - off + 1022) div 1023"
    proof (cases "len - off \<ge> 1023")
      case True
      then have "?n = 1023" by simp
      then have "length gen = (len - off - 1023 + 1022) div 1023" using g(2) by simp
      then show ?thesis using True by simp
    next
      case False
      then have n: "?n = len - off" by simp
      then have "length gen = 0" using g(2) by simp
      moreover have "(len - off + 1022) div 1023 = 1" using False \<open>off < len\<close> by simp
      ultimately show ?thesis by simp
    qed
    have el: "\<forall>j < length (?b # gen).
            sequence ((?b # gen) ! j) = seq + of_nat j \<and>
            offset ((?b # gen) ! j) = of_nat (off + 1023 * j) \<and>
            blk_length ((?b # gen) ! j) = of_nat (min 1023 (len - (off + 1023 * j))) \<and>
            blk_data ((?b # gen) ! j) = take (min 1023 (len - (off + 1023 * j))) (drop (off + 1023 * j) bytes) \<and>
            \<not> acknowledged ((?b # gen) ! j) \<and> retransmit_count ((?b # gen) ! j) = 0 \<and> timestamp ((?b # gen) ! j) = 0"
    proof (intro allI impI)
      fix j assume j: "j < length (?b # gen)"
      show "sequence ((?b # gen) ! j) = seq + of_nat j \<and>
            offset ((?b # gen) ! j) = of_nat (off + 1023 * j) \<and>
            blk_length ((?b # gen) ! j) = of_nat (min 1023 (len - (off + 1023 * j))) \<and>
            blk_data ((?b # gen) ! j) = take (min 1023 (len - (off + 1023 * j))) (drop (off + 1023 * j) bytes) \<and>
            \<not> acknowledged ((?b # gen) ! j) \<and> retransmit_count ((?b # gen) ! j) = 0 \<and> timestamp ((?b # gen) ! j) = 0"
      proof (cases j)
        case 0
        then show ?thesis by simp
      next
        case (Suc k)
        with j have k: "k < length gen" by simp
        then have "length gen \<noteq> 0" by auto
        then have "len - off \<ge> 1023" using g(2) by (cases "len - off \<ge> 1023") auto
        then have n: "?n = 1023" by simp
        have o: "off + ?n + 1023 * k = off + 1023 * Suc k" using n by simp
        from g(3) k have "sequence (gen ! k) = seq + 1 + of_nat k \<and>
            offset (gen ! k) = of_nat (off + ?n + 1023 * k) \<and>
            blk_length (gen ! k) = of_nat (min 1023 (len - (off + ?n + 1023 * k))) \<and>
            blk_data (gen ! k) = take (min 1023 (len - (off + ?n + 1023 * k))) (drop (off + ?n + 1023 * k) bytes) \<and>
            \<not> acknowledged (gen ! k) \<and> retransmit_count (gen ! k) = 0 \<and> timestamp (gen ! k) = 0"
          by blast
        then show ?thesis unfolding o using Suc by (simp add: add.assoc)
      qed
    qed
    show ?thesis
      by (rule exI[of _ "?b # gen"]) (use res len el in \<open>simp only: simp_thms\<close>)
  qed
qed

lemma segmented_create_blocks: "segmented bytes (m_tx_blocks (create_blocks st bytes))"
proof -
  from create_blocks_loop_char[of bytes "length bytes" 0 0 "[]"]
  obtain gen where g: "create_blocks_loop bytes (length bytes) 0 0 [] = [] @ gen"
     "length gen = (length bytes - 0 + 1022) div 1023"
     "\<forall>j < length gen.
            sequence (gen ! j) = 0 + of_nat j \<and>
            offset (gen ! j) = of_nat (0 + 1023 * j) \<and>
            blk_length (gen ! j) = of_nat (min 1023 (length bytes - (0 + 1023 * j))) \<and>
            blk_data (gen ! j) = take (min 1023 (length bytes - (0 + 1023 * j))) (drop (0 + 1023 * j) bytes) \<and>
            \<not> acknowledged (gen ! j) \<and> retransmit_count (gen ! j) = 0 \<and> timestamp (gen ! j) = 0"
    by (elim exE conjE)
  have "m_tx_blocks (create_blocks st bytes) = gen"
    using g(1) by (simp add: create_blocks_def Let_def)
  then show ?thesis
    using g(2,3) by (simp add: segmented_def)
qed

lemma create_blocks_fields:
  "m_state (create_blocks st bytes) = m_state st"
  "m_tx_callback (create_blocks st bytes) = m_tx_callback st"
  "m_next_tx_sequence (create_blocks st bytes) = 0"
  "m_window_base (create_blocks st bytes) = 0"
  by (simp_all add: create_blocks_def Let_def)

lemma find_block_from_first:
  "k < length bs \<Longrightarrow> sequence (bs ! k) = seq \<Longrightarrow> (\<forall>i<k. sequence (bs ! i) \<noteq> seq)
     \<Longrightarrow> find_block_from bs seq a = Some (a + k)"
proof (induction bs arbitrary: a k)
  case Nil
  then show ?case by simp
next
  case (Cons b bs)
  show ?case
  proof (cases k)
    case 0
    with Cons.prems show ?thesis by simp
  next
    case (Suc k')
    with Cons.prems have "sequence b \<noteq> seq" by auto
    moreover have "find_block_from bs seq (Suc a) = Some (Suc a + k')"
      using Cons.prems Suc by (intro Cons.IH) auto
    ultimately show ?thesis using Suc by simp
  qed
qed

lemma of_nat_u8_inj: "i < k \<Longrightarrow> k < 256 \<Longrightarrow> (of_nat i :: u8) \<noteq> of_nat k"
  by (simp add: word_of_nat_eq_iff take_bit_nat_eq_self)

lemma find_block_segmented:
  assumes "segmented bytes (m_tx_blocks st)" "unat seq < length (m_tx_blocks st)"
  shows "find_block st seq = Some (unat seq)"
proof -
  let ?bs = "m_tx_blocks st"
  have lt: "unat seq < 256" using unsigned_less[of seq, where ?'a = nat] by simp
  have a: "sequence (?bs ! unat seq) = seq"
    using assms by (simp add: segmented_def)
  have b: "\<forall>i<unat seq. sequence (?bs ! i) \<noteq> seq"
  proof (intro allI impI)
    fix i assume i: "i < unat seq"
    then have "sequence (?bs ! i) = of_nat i" using assms by (simp add: segmented_def)
    moreover have "(of_nat i :: u8) \<noteq> of_nat (unat seq)" using i lt by (rule of_nat_u8_inj)
    ultimately show "sequence (?bs ! i) \<noteq> seq" by simp
  qed
  from find_block_from_first[OF assms(2) a b, of 0] show ?thesis
    by (simp add: find_block_def)
qed

lemma segmented_update_timestamp:
  assumes "segmented bytes bs"
  shows "segmented bytes (bs[i := (bs ! i)\<lparr>timestamp := t\<rparr>])"
proof -
  have e: "sequence (bs[i := (bs ! i)\<lparr>timestamp := t\<rparr>] ! j) = sequence (bs ! j) \<and>
        offset (bs[i := (bs ! i)\<lparr>timestamp := t\<rparr>] ! j) = offset (bs ! j) \<and>
        blk_length (bs[i := (bs ! i)\<lparr>timestamp := t\<rparr>] ! j) = blk_length (bs ! j) \<and>
        blk_data (bs[i := (bs ! i)\<lparr>timestamp := t\<rparr>] ! j) = blk_data (bs ! j) \<and>
        acknowledged (bs[i := (bs ! i)\<lparr>timestamp := t\<rparr>] ! j) = acknowledged (bs ! j)"
    if "j < length bs" for j
    using that by (cases "i = j") simp_all
  show ?thesis
    using assms unfolding segmented_def by (simp add: e)
qed

lemma send_block_blocks:
  "m_tx_blocks (send_block st seq) = m_tx_blocks st \<or>
   (\<exists>i t. m_tx_blocks (send_block st seq) = (m_tx_blocks st)[i := (m_tx_blocks st ! i)\<lparr>timestamp := t\<rparr>])"
  by (auto simp add: send_block_def Let_def split: option.splits)

lemma segmented_send_block:
  "segmented bytes (m_tx_blocks st) \<Longrightarrow> segmented bytes (m_tx_blocks (send_block st seq))"
  using send_block_blocks[of st seq] segmented_update_timestamp by metis

lemma send_block_fields:
  "m_state (send_block st seq) = m_state st"
  "m_window_size (send_block st seq) = m_window_size st"
  "m_next_tx_sequence (send_block st seq) = m_next_tx_sequence st"
  by (simp_all add: send_block_def Let_def split: option.splits)

lemma body_segmented:
  assumes "segmented bytes (m_tx_blocks st)"
    "unat (m_next_tx_sequence st) < length (m_tx_blocks st)"
  shows "snd (send_next_blocks_body st sent) = sent + 1"
    and "segmented bytes (m_tx_blocks (fst (send_next_blocks_body st sent)))"
    and "m_state (fst (send_next_blocks_body st sent)) = m_state st"
    and "m_window_size (fst (send_next_blocks_body st sent)) = m_window_size st"
proof -
  let ?seq = "m_next_tx_sequence st"
  have f: "find_block st ?seq = Some (unat ?seq)"
    by (rule find_block_segmented[OF assms])
  have na: "\<not> acknowledged (m_tx_blocks st ! unat ?seq)"
    using assms by (simp add: segmented_def)
  have nw: "\<not> unat (m_next_tx_sequence st + 1) \<ge> 256"
    using unsigned_less[of "m_next_tx_sequence st + 1", where ?'a = nat] by simp
  have b: "send_next_blocks_body st sent =
     ((send_block st ?seq)\<lparr>m_next_tx_sequence := m_next_tx_sequence st + 1\<rparr>, sent + 1)"
    using f na nw by (simp add: send_next_blocks_body_def Let_def send_block_fields)
  show "snd (send_next_blocks_body st sent) = sent + 1" by (simp add: b)
  show "segmented bytes (m_tx_blocks (fst (send_next_blocks_body st sent)))"
    using segmented_send_block[OF assms(1), of ?seq] by (simp add: b)
  show "m_state (fst (send_next_blocks_body st sent)) = m_state st"
    by (simp add: b send_block_fields)
  show "m_window_size (fst (send_next_blocks_body st sent)) = m_window_size st"
    by (simp add: b send_block_fields)
qed

lemma loop_returns:
  assumes "segmented bytes (m_tx_blocks st)"
  shows "\<exists>st' sent'. send_next_blocks_loop st sent = Some (st', sent') \<and>
            segmented bytes (m_tx_blocks st') \<and> m_state st' = m_state st"
  using assms
proof (induction "unat (m_window_size st) - sent" arbitrary: st sent rule: less_induct)
  case less
  show ?case
  proof (cases "sent < unat (m_window_size st) \<and> unat (m_next_tx_sequence st) < length (m_tx_blocks st)")
    case False
    then have "send_next_blocks_loop st sent = Some (st, sent)"
      by (subst send_next_blocks_loop.simps) auto
    then show ?thesis using less.prems by simp
  next
    case True
    let ?st1 = "fst (send_next_blocks_body st sent)"
    let ?s1 = "snd (send_next_blocks_body st sent)"
    note b = body_segmented[OF less.prems, of sent] 
    have c: "unat (m_next_tx_sequence st) < length (m_tx_blocks st)" using True by simp
    have m: "unat (m_window_size ?st1) - ?s1 < unat (m_window_size st) - sent"
    proof -
      have "sent < unat (m_window_size st)" using True by simp
      then have "unat (m_window_size st) - (sent + 1) < unat (m_window_size st) - sent" by arith
      then show ?thesis by (simp only: b(1)[OF c] b(4)[OF c])
    qed
    from less.hyps[OF m b(2)[OF c]]
    obtain st' sent' where r: "send_next_blocks_loop ?st1 ?s1 = Some (st', sent')"
       "segmented bytes (m_tx_blocks st')" "m_state st' = m_state ?st1"
      by blast
    have "send_next_blocks_loop st sent = send_next_blocks_loop ?st1 ?s1"
      using True by (subst send_next_blocks_loop.simps) simp
    then show ?thesis using r b(3)[OF c] by simp
  qed
qed

lemma arq_transition_to_fields:
  "m_state (arq_transition_to st s) = s"
  "m_tx_blocks (arq_transition_to st s) = m_tx_blocks st"
  by (simp_all add: arq_transition_to_def Let_def)

lemma frame_sent_in_tx_data:
  assumes "m_state st = TX_DATA"
  shows "\<exists>st2. process_event_depth 2 st FRAME_SENT = Some st2 \<and> m_tx_blocks st2 = m_tx_blocks st"
proof -
  have "process_event_depth 2 st FRAME_SENT =
          handle_tx_data (process_event_depth 1) st FRAME_SENT"
    using assms by (simp add: numeral_2_eq_2)
  moreover have "process_event_depth 1 st TRANSFER_COMPLETE = Some (arq_transition_to st ARQ_IDLE)"
    using assms by (simp add: handle_tx_data_def)
  ultimately show ?thesis
    by (simp add: handle_tx_data_def Let_def arq_transition_to_fields)
qed

lemma start_tx_in_idle:
  assumes "m_state st = ARQ_IDLE" "segmented bytes (m_tx_blocks st)"
  shows "\<exists>st'. arq_process_event st START_TX = Some st' \<and> segmented bytes (m_tx_blocks st')"
proof (cases "m_tx_blocks st = []")
  case True
  then have "arq_process_event st START_TX = Some st"
    using assms(1) by (simp add: arq_process_event_def numeral_3_eq_3 handle_idle_def)
  then show ?thesis using assms(2) by simp
next
  case False
  let ?st1 = "arq_transition_to st TX_DATA"
  have e: "arq_process_event st START_TX = send_next_blocks (process_event_depth 2) ?st1"
    using assms(1) False by (simp add: arq_process_event_def numeral_3_eq_3 handle_idle_def numeral_2_eq_2)
  have s1: "segmented bytes (m_tx_blocks ?st1)"
    using assms(2) by (simp add: arq_transition_to_fields)
  from loop_returns[OF s1, of 0]
  obtain st2 sent where l: "send_next_blocks_loop ?st1 0 = Some (st2, sent)"
    "segmented bytes (m_tx_blocks st2)" "m_state st2 = m_state ?st1"
    by blast
  have m2: "m_state st2 = TX_DATA" using l(3) by (simp add: arq_transition_to_fields)
  from frame_sent_in_tx_data[OF m2]
  obtain st3 where f: "process_event_depth 2 st2 FRAME_SENT = Some st3"
    "m_tx_blocks st3 = m_tx_blocks st2" by blast
  have "send_next_blocks (process_event_depth 2) ?st1 = Some (if sent > 0 then st3 else st2)"
    using l(1) f(1) by (simp add: send_next_blocks_def)
  then show ?thesis using e l(2) f(2) by auto
qed

lemma segmented_index_bound:
  assumes "j < (n + 1022) div 1023"
  shows "1023 * j < (n::nat)"
  using assms by simp

lemma segmented_full_before:
  assumes "j < (n + 1022) div 1023" "i < j"
  shows "min 1023 (n - 1023 * i) = (1023 :: nat)"
proof -
  have "1023 * j < n" by (rule segmented_index_bound[OF assms(1)])
  moreover have "1023 * i + 1023 \<le> 1023 * j" using assms(2) by simp
  ultimately show ?thesis by simp
qed

lemma unat_of_nat_small: "n < 2 ^ LENGTH('a) \<Longrightarrow> unat (of_nat n :: 'a::len word) = n"
  by (simp add: unat_of_nat)

text \<open>
  C3. In a state other than IDLE, \<open>start_transmission\<close> returns false and leaves the object
  as it was (the error callback, if one is set, is called; nothing else changes). In IDLE
  with a transmit callback set, on an input of fewer than \<open>2 ^ 32\<close> bytes, it returns true
  and the block list then holds the input cut into blocks of at most 1023 bytes: block \<open>j\<close>
  has sequence number \<open>j mod 256\<close>, its offset is the sum of the lengths of the blocks before
  it, that is \<open>1023 * j\<close>, and its data are the input bytes from that offset on.
\<close>

theorem start_transmission_only_from_idle:
  "(m_state st \<noteq> ARQ_IDLE \<longrightarrow>
      (\<exists>st'. start_transmission st bytes = Some (False, st') \<and>
             st'\<lparr>m_error_callback_calls := m_error_callback_calls st\<rparr> = st)) \<and>
   (m_state st = ARQ_IDLE \<and> m_tx_callback st \<and> length bytes < 2 ^ 32 \<longrightarrow>
      (\<exists>st'. start_transmission st bytes = Some (True, st') \<and>
         length (m_tx_blocks st') = (length bytes + 1022) div 1023 \<and>
         (\<forall>j < length (m_tx_blocks st').
            unat (blk_length (m_tx_blocks st' ! j)) \<le> 1023 \<and>
            unat (blk_length (m_tx_blocks st' ! j)) = min 1023 (length bytes - 1023 * j) \<and>
            unat (sequence (m_tx_blocks st' ! j)) = j mod 256 \<and>
            unat (offset (m_tx_blocks st' ! j)) = (\<Sum>i<j. unat (blk_length (m_tx_blocks st' ! i))) \<and>
            unat (offset (m_tx_blocks st' ! j)) = 1023 * j \<and>
            blk_data (m_tx_blocks st' ! j)
              = take (unat (blk_length (m_tx_blocks st' ! j))) (drop (1023 * j) bytes))))"
proof (intro conjI impI)
  assume "m_state st \<noteq> ARQ_IDLE"
  then have "start_transmission st bytes
      = Some (False, report_error st ''Cannot start transmission: not in IDLE state'')"
    by (simp add: start_transmission_def)
  moreover have "(report_error st ''Cannot start transmission: not in IDLE state'')
      \<lparr>m_error_callback_calls := m_error_callback_calls st\<rparr> = st"
    by (simp add: report_error_def)
  ultimately show "\<exists>st'. start_transmission st bytes = Some (False, st') \<and>
             st'\<lparr>m_error_callback_calls := m_error_callback_calls st\<rparr> = st"
    by simp
next
  assume a: "m_state st = ARQ_IDLE \<and> m_tx_callback st \<and> length bytes < 2 ^ 32"
  let ?n = "length bytes"
  let ?st0 = "create_blocks st bytes"
  have i0: "m_state ?st0 = ARQ_IDLE" using a by (simp add: create_blocks_fields)
  from start_tx_in_idle[OF i0 segmented_create_blocks]
  obtain st' where p: "arq_process_event ?st0 START_TX = Some st'"
    and sg: "segmented bytes (m_tx_blocks st')" by blast
  have r: "start_transmission st bytes = Some (True, st')"
    using a p by (simp add: start_transmission_def)
  let ?bs = "m_tx_blocks st'"
  have len: "length ?bs = (?n + 1022) div 1023" using sg by (simp add: segmented_def)
  have bl: "unat (blk_length (?bs ! j)) = min 1023 (?n - 1023 * j)" if "j < length ?bs" for j
  proof -
    have "blk_length (?bs ! j) = of_nat (min 1023 (?n - 1023 * j))"
      using sg that by (simp add: segmented_def)
    moreover have "min 1023 (?n - 1023 * j) < 2 ^ LENGTH(16)" by simp
    ultimately show ?thesis by (simp only: unat_of_nat_small)
  qed
  have el: "unat (blk_length (?bs ! j)) \<le> 1023 \<and>
            unat (blk_length (?bs ! j)) = min 1023 (?n - 1023 * j) \<and>
            unat (sequence (?bs ! j)) = j mod 256 \<and>
            unat (offset (?bs ! j)) = (\<Sum>i<j. unat (blk_length (?bs ! i))) \<and>
            unat (offset (?bs ! j)) = 1023 * j \<and>
            blk_data (?bs ! j) = take (unat (blk_length (?bs ! j))) (drop (1023 * j) bytes)"
    if j: "j < length ?bs" for j
  proof -
    have jb: "j < (?n + 1022) div 1023" using j len by simp
    have lt: "1023 * j < ?n" by (rule segmented_index_bound[OF jb])
    have f: "sequence (?bs ! j) = of_nat j" "offset (?bs ! j) = of_nat (1023 * j)"
      "blk_data (?bs ! j) = take (min 1023 (?n - 1023 * j)) (drop (1023 * j) bytes)"
      using sg j by (simp_all add: segmented_def)
    have sq: "unat (sequence (?bs ! j)) = j mod 256"
      unfolding f(1) by (simp add: unat_of_nat)
    have "1023 * j < length bytes" by (rule lt)
    also have "\<dots> < 2 ^ 32" using a by blast
    finally have "1023 * j < 2 ^ LENGTH(32)" by simp
    then have of: "unat (offset (?bs ! j)) = 1023 * j"
      unfolding f(2) by (rule unat_of_nat_small)
    have "(\<Sum>i<j. unat (blk_length (?bs ! i))) = (\<Sum>i<j. 1023)"
    proof (rule sum.cong)
      fix i assume "i \<in> {..<j}"
      then have ij: "i < j" by simp
      then have "i < length ?bs" using j by simp
      then show "unat (blk_length (?bs ! i)) = 1023"
        using bl[of i] segmented_full_before[OF jb ij] by simp
    qed simp
    then have cum: "(\<Sum>i<j. unat (blk_length (?bs ! i))) = 1023 * j" by simp
    show ?thesis
      using bl[OF j] sq of cum f(3) by simp
  qed
  from r len el
  show "\<exists>st'. start_transmission st bytes = Some (True, st') \<and>
         length (m_tx_blocks st') = (length bytes + 1022) div 1023 \<and>
         (\<forall>j < length (m_tx_blocks st').
            unat (blk_length (m_tx_blocks st' ! j)) \<le> 1023 \<and>
            unat (blk_length (m_tx_blocks st' ! j)) = min 1023 (length bytes - 1023 * j) \<and>
            unat (sequence (m_tx_blocks st' ! j)) = j mod 256 \<and>
            unat (offset (m_tx_blocks st' ! j)) = (\<Sum>i<j. unat (blk_length (m_tx_blocks st' ! i))) \<and>
            unat (offset (m_tx_blocks st' ! j)) = 1023 * j \<and>
            blk_data (m_tx_blocks st' ! j)
              = take (unat (blk_length (m_tx_blocks st' ! j))) (drop (1023 * j) bytes))"
    by blast
qed

theorem start_transmission_only_from_idle_witness:
  "m_state (VariableARQ_new\<lparr>m_state := WAIT_ACK\<rparr>) \<noteq> ARQ_IDLE \<and>
   start_transmission (VariableARQ_new\<lparr>m_state := WAIT_ACK\<rparr>) (replicate 2000 0x41)
     = Some (False, VariableARQ_new\<lparr>m_state := WAIT_ACK\<rparr>) \<and>
   m_state (init VariableARQ_new True False False) = ARQ_IDLE \<and>
   m_tx_callback (init VariableARQ_new True False False) \<and>
   length (replicate 2000 (0x41 :: u8)) < 2 ^ 32 \<and>
   (\<exists>st'. start_transmission (init VariableARQ_new True False False) (replicate 2000 0x41)
            = Some (True, st') \<and> length (m_tx_blocks st') = 2)"
proof -
  have a: "m_state (VariableARQ_new\<lparr>m_state := WAIT_ACK\<rparr>) \<noteq> ARQ_IDLE" by simp
  have b: "m_state (init VariableARQ_new True False False) = ARQ_IDLE \<and>
           m_tx_callback (init VariableARQ_new True False False) \<and>
           length (replicate 2000 (0x41 :: u8)) < 2 ^ 32"
    by (simp add: init_def VariableARQ_new_def)
  have c: "start_transmission (VariableARQ_new\<lparr>m_state := WAIT_ACK\<rparr>) (replicate 2000 0x41)
     = Some (False, VariableARQ_new\<lparr>m_state := WAIT_ACK\<rparr>)"
    by (simp add: start_transmission_def report_error_def VariableARQ_new_def)
  from start_transmission_only_from_idle[of "init VariableARQ_new True False False" "replicate 2000 0x41"] b
  have "\<exists>st'. start_transmission (init VariableARQ_new True False False) (replicate 2000 0x41)
            = Some (True, st') \<and> length (m_tx_blocks st') = 2"
    by auto
  with a b c show ?thesis by blast
qed

text \<open>
  C10. After \<open>reset\<close> the machine is in IDLE, the statistics are all zero, the transmit
  block list, the retransmit queue and the reassembly buffer are empty, the 256 entries of
  the receive bitmap are false, and the next transmit sequence and the window base are 0:
  the statistics and the received data are those of a newly constructed object.
\<close>

theorem reset_gives_fresh_session:
  "m_state (reset st) = ARQ_IDLE \<and>
   m_stats (reset st) = ARQStats_zero \<and>
   m_tx_blocks (reset st) = [] \<and>
   m_retransmit_queue (reset st) = [] \<and>
   m_rx_buffer (reset st) = [] \<and>
   m_rx_bitmap (reset st) = replicate 256 False \<and>
   m_next_tx_sequence (reset st) = 0 \<and>
   m_window_base (reset st) = 0 \<and>
   m_stats (reset st) = m_stats VariableARQ_new \<and>
   m_rx_buffer (reset st) = m_rx_buffer VariableARQ_new"
  by (simp add: reset_def Let_def arq_transition_to_fields VariableARQ_new_def)

section \<open>LQA database\<close>

lemma clamp_in_range: "score_in_range (std_min (Fin 31) (std_max (Fin 0) s))"
  by (cases s) (auto simp add: std_min_def std_max_def)

lemma compute_score_in_range: "score_in_range (compute_score F db clock entry)"
  unfolding compute_score_def Let_def by (rule clamp_in_range)

lemma update_entry_other:
  "k \<noteq> (freq, station) \<Longrightarrow>
   entries (update_entry F db freq station snr b fec words tstamp clock1 clock2) k = entries db k"
  by (simp add: update_entry_def Let_def split: option.split)

lemma update_entry_this:
  "entries (update_entry F db freq station snr b fec words tstamp clock1 clock2) (freq, station)
     = Some e \<Longrightarrow> score_in_range (score e)"
  by (cases "entries db (freq, station)")
     (auto simp add: update_entry_def Let_def compute_score_in_range split: if_splits)

lemma update_entry_extended_other:
  "k \<noteq> (freq, station) \<Longrightarrow>
   entries (update_entry_extended F db freq station snr b sinad multipath noise_floor fec
               words tstamp clock1 clock2) k = entries db k"
  by (simp add: update_entry_extended_def Let_def split: option.split)

lemma update_entry_extended_this:
  "entries (update_entry_extended F db freq station snr b sinad multipath noise_floor fec
               words tstamp clock1 clock2) (freq, station)
     = Some e \<Longrightarrow> score_in_range (score e)"
  by (cases "entries db (freq, station)")
     (auto simp add: update_entry_extended_def Let_def compute_score_in_range split: if_splits)

lemma update_entry_defined:
  "entries (update_entry F db freq station snr b fec words tstamp clock1 clock2) (freq, station)
     \<noteq> None"
  by (simp add: update_entry_def Let_def split: option.split)

lemma update_entry_extended_defined:
  "entries (update_entry_extended F db freq station snr b sinad multipath noise_floor fec
               words tstamp clock1 clock2) (freq, station) \<noteq> None"
  by (simp add: update_entry_extended_def Let_def split: option.split)

text \<open>
  C7 (amended). Whatever the configured weights, whatever the floating-point arithmetic
  computes and whatever the database holds before the call, a call of \<open>update_entry\<close> or
  of \<open>update_entry_extended\<close> leaves the database with an entry at the frequency and
  station of the call whose score lies in [0, 31], and with every other entry as it was
  before the call.
\<close>

theorem lqa_written_entry_score_in_range:
  "(\<exists>e. entries (update_entry F db freq station snr b fec words tstamp clock1 clock2)
           = (entries db)((freq, station) \<mapsto> e) \<and>
         score_in_range (score e)) \<and>
   (\<exists>e. entries (update_entry_extended F db freq station snr b sinad multipath noise_floor
                    fec words tstamp clock1 clock2)
           = (entries db)((freq, station) \<mapsto> e) \<and>
         score_in_range (score e))"
proof
  let ?db1 = "update_entry F db freq station snr b fec words tstamp clock1 clock2"
  obtain e where e: "entries ?db1 (freq, station) = Some e"
    using update_entry_defined[of F db freq station snr b fec words tstamp clock1 clock2]
    by blast
  have "entries ?db1 k = ((entries db)((freq, station) \<mapsto> e)) k" for k
    using e by (cases "k = (freq, station)") (simp_all add: update_entry_other)
  then have "entries ?db1 = (entries db)((freq, station) \<mapsto> e)"
    by (rule ext)
  moreover have "score_in_range (score e)"
    using e by (rule update_entry_this)
  ultimately show "\<exists>e. entries ?db1 = (entries db)((freq, station) \<mapsto> e) \<and>
      score_in_range (score e)"
    by blast
next
  let ?db1 = "update_entry_extended F db freq station snr b sinad multipath noise_floor
                fec words tstamp clock1 clock2"
  obtain e where e: "entries ?db1 (freq, station) = Some e"
    using update_entry_extended_defined[of F db freq station snr b sinad multipath noise_floor
            fec words tstamp clock1 clock2]
    by blast
  have "entries ?db1 k = ((entries db)((freq, station) \<mapsto> e)) k" for k
    using e by (cases "k = (freq, station)") (simp_all add: update_entry_extended_other)
  then have "entries ?db1 = (entries db)((freq, station) \<mapsto> e)"
    by (rule ext)
  moreover have "score_in_range (score e)"
    using e by (rule update_entry_extended_this)
  ultimately show "\<exists>e. entries ?db1 = (entries db)((freq, station) \<mapsto> e) \<and>
      score_in_range (score e)"
    by blast
qed

text \<open>
  \<open>load_from_file\<close> stores the score of the file as it is. The bit patterns that
  \<open>read_entry\<close> starts from are those of the members of a constructed entry, 0 and -120;
  and a file written in the format of \<^verbatim>\<open>save_to_file\<close> that holds one entry, of score
  100, loads as a database that holds this entry with this score.
\<close>

lemma float_of_bits_defaults:
  "float_of_bits 0 = Fin 0" "float_of_bits 0xC2F00000 = Fin (- 120)"
  by (simp_all add: float_of_bits_def Let_def)

lemma load_from_file_stores_score_unclamped:
  "load_from_file db
     (Some [0x50, 0x43, 0x41, 0x4C, 0x45, 0x5F, 0x4C, 0x51, 0x41, 0x00,
            0x01, 0x00, 0x00, 0x00,
            0x00, 0x00, 0x00, 0x3F, 0x00, 0x00, 0x80, 0x3E, 0x00, 0x00, 0x80, 0x3E,
            0x80, 0xEE, 0x36, 0x00, 0x64, 0x00, 0x00, 0x00, 0x00, 0x00, 0x00, 0x3F,
            0x00, 0x00, 0xA0, 0x41, 0x00, 0x00, 0xC0, 0x40, 0x00, 0x00, 0x80, 0x3A,
            0x00, 0x00, 0x00, 0x3E,
            0x01, 0x00, 0x00, 0x00,
            0x20, 0x26, 0xD7, 0x00, 0x01, 0x00, 0x00, 0x00, 0x42,
            0x00, 0x00, 0x20, 0x41, 0x00, 0x00, 0x00, 0x00, 0x00, 0x00, 0x00, 0x00,
            0x00, 0x00, 0x00, 0x00, 0x05, 0x00, 0x00, 0x00, 0x00, 0x00, 0x00, 0x00,
            0x00, 0x00, 0xF0, 0xC2, 0x00, 0x00, 0x00, 0x00, 0xE8, 0x03, 0x00, 0x00,
            0x00, 0x00, 0xC8, 0x42, 0x01, 0x00, 0x00, 0x00])
   = Some (True,
       \<lparr>config = \<lparr>snr_weight = Fin (1 / 2), success_weight = Fin (1 / 4),
                   recency_weight = Fin (1 / 4), max_age_ms = 3600000, history_depth = 100,
                   time_decay_factor = Fin (1 / 2), good_snr_db = Fin 20, poor_snr_db = Fin 6,
                   good_ber = Fin (1 / 1024), poor_ber = Fin (1 / 8)\<rparr>,
        entries = [(14100000, [0x42]) \<mapsto>
                   \<lparr>frequency_hz = 14100000, remote_station = [0x42], snr_db = Fin 10,
                    ber = Fin 0, sinad_db = Fin 0, fec_errors = 0, total_words = 5,
                    multipath_score = Fin 0, noise_floor_dbm = Fin (- 120),
                    last_sounding_ms = 0, last_contact_ms = 1000, score = Fin 100,
                    sample_count = 1\<rparr>]\<rparr>)"
  by (simp add: load_from_file_def PCALE_LQA_def read_u32_uninit_def read_u32_def stream_read_def
        bytes_of_u32_def u32_of_bytes_def read_config_def read_entry_def float_of_bits_def Let_def)

text \<open>
  C7 as stated fails for an entry that the call does not write: in the database that the
  file above loads as, a call of \<open>update_entry\<close> or of \<open>update_entry_extended\<close> for
  another frequency and station leaves the loaded entry with its score 100, outside
  [0, 31], whatever the arithmetic.
\<close>

theorem lqa_other_entry_score_stays_out_of_range:
  "let db = \<lparr>config = \<lparr>snr_weight = Fin (1 / 2), success_weight = Fin (1 / 4),
                   recency_weight = Fin (1 / 4), max_age_ms = 3600000, history_depth = 100,
                   time_decay_factor = Fin (1 / 2), good_snr_db = Fin 20, poor_snr_db = Fin 6,
                   good_ber = Fin (1 / 1024), poor_ber = Fin (1 / 8)\<rparr>,
        entries = [(14100000, [0x42]) \<mapsto>
                   \<lparr>frequency_hz = 14100000, remote_station = [0x42], snr_db = Fin 10,
                    ber = Fin 0, sinad_db = Fin 0, fec_errors = 0, total_words = 5,
                    multipath_score = Fin 0, noise_floor_dbm = Fin (- 120),
                    last_sounding_ms = 0, last_contact_ms = 1000, score = Fin 100,
                    sample_count = 1\<rparr>]\<rparr>
   in \<forall>F.
        (\<exists>e. entries (update_entry F db 7073000 [0x41] (Fin 20) (Fin 0) 0 10 2000 0 3000)
                 (14100000, [0x42]) = Some e \<and>
              score e = Fin 100 \<and> \<not> score_in_range (score e)) \<and>
        (\<exists>e. entries (update_entry_extended F db 7073000 [0x41] (Fin 20) (Fin 0) (Fin 12) (Fin 0)
                          (Fin (- 100)) 0 10 2000 0 3000)
                 (14100000, [0x42]) = Some e \<and>
              score e = Fin 100 \<and> \<not> score_in_range (score e))"
  by (simp add: Let_def update_entry_other update_entry_extended_other)

text \<open>
  What the two calls do preserve: when every stored score lies in [0, 31] before the call,
  every stored score lies in [0, 31] after it.
\<close>

lemma lqa_scores_in_range_preserved:
  assumes "\<forall>k e. entries db k = Some e \<longrightarrow> score_in_range (score e)"
  shows "(\<forall>k e. entries (update_entry F db freq station snr b fec words tstamp clock1 clock2) k
                   = Some e \<longrightarrow> score_in_range (score e)) \<and>
         (\<forall>k e. entries (update_entry_extended F db freq station snr b sinad multipath noise_floor
                            fec words tstamp clock1 clock2) k
                   = Some e \<longrightarrow> score_in_range (score e))"
proof (intro conjI allI impI)
  fix k e
  assume a: "entries (update_entry F db freq station snr b fec words tstamp clock1 clock2) k = Some e"
  show "score_in_range (score e)"
  proof (cases "k = (freq, station)")
    case True
    with a show ?thesis using update_entry_this by blast
  next
    case False
    with a have "entries db k = Some e" by (simp add: update_entry_other)
    with assms show ?thesis by blast
  qed
next
  fix k e
  assume a: "entries (update_entry_extended F db freq station snr b sinad multipath noise_floor
                            fec words tstamp clock1 clock2) k = Some e"
  show "score_in_range (score e)"
  proof (cases "k = (freq, station)")
    case True
    with a show ?thesis using update_entry_extended_this by blast
  next
    case False
    with a have "entries db k = Some e" by (simp add: update_entry_extended_other)
    with assms show ?thesis by blast
  qed
qed

end
